theory Spec2Isabelle
  imports Main "HOL-Library.Word" "HOL-Library.Sublist"
begin

section \<open>Payloads and the bridge/API conversions\<close>

text \<open>
  Both payload messages (\<open>temporalio.api.common.v1.Payload\<close> and
  \<open>temporalio.bridge.proto.common.Payload\<close>) carry a string-keyed map of byte strings
  and a byte string. They are different message classes, so they are different types here.
\<close>

type_synonym bytes = "8 word list"

record api_payload =
  api_metadata :: "string \<rightharpoonup> bytes"
  api_data :: bytes

record bridge_payload =
  bridge_metadata :: "string \<rightharpoonup> bytes"
  bridge_data :: bytes

definition from_bridge_payload :: "bridge_payload \<Rightarrow> api_payload" where
  "from_bridge_payload payload =
     \<lparr>api_metadata = bridge_metadata payload, api_data = bridge_data payload\<rparr>"

definition from_bridge_payloads :: "bridge_payload list \<Rightarrow> api_payload list" where
  "from_bridge_payloads payloads = map from_bridge_payload payloads"

definition to_bridge_payload :: "api_payload \<Rightarrow> bridge_payload" where
  "to_bridge_payload payload =
     \<lparr>bridge_metadata = api_metadata payload, bridge_data = api_data payload\<rparr>"

definition to_bridge_payloads :: "api_payload list \<Rightarrow> bridge_payload list" where
  "to_bridge_payloads payloads = map to_bridge_payload payloads"

section \<open>Errors, codec calls and the state of a pass\<close>

text \<open>
  Every exception the modelled code can raise is a value: \<open>IndexError\<close> for \<open>xs[0]\<close> on an
  empty list, \<open>AttributeError\<close> for a method call on \<open>None\<close>, \<open>ValueError\<close> for a
  protobuf field assignment out of range, and \<open>Raised msg\<close> for whatever a collaborator
  (payload codec, failure codec, native core) raises.
\<close>

datatype error = IndexError | AttributeError | ValueError | Raised string

text \<open>
  The payload codec (\<open>temporalio.converter.PayloadCodec\<close>) and the failure codec
  (\<open>temporalio.exceptions.decode_failure\<close> / \<open>encode_failure\<close>) are collaborators whose code
  is not part of the traversal; they are parameters. A codec may keep state between calls
  (type \<open>'s\<close>); a call returns a list of payload objects or raises. The failure codec
  mutates the failure message (type \<open>'f\<close>) in place and may raise, leaving the message as
  it then is.

  A payload object that a codec returns is described by its contents at the moment the
  call returns and by whether it is one of the very objects the codec was given (a codec
  may hand its arguments back, changed or not) or an object of its own. The difference
  shows where the caller goes on to mutate the object it passed. A codec that changes a
  payload it was given and then raises or returns an empty list is taken to leave that
  payload as it was.
\<close>

record returned =
  returned_payload :: api_payload
  is_argument :: bool

definition fresh :: "api_payload \<Rightarrow> returned" where
  \<comment> \<open>a payload object the codec has made itself\<close>
  "fresh p = \<lparr>returned_payload = p, is_argument = False\<rparr>"

definition handed_back :: "api_payload \<Rightarrow> returned" where
  \<comment> \<open>an object the codec was given, returned with these contents\<close>
  "handed_back p = \<lparr>returned_payload = p, is_argument = True\<rparr>"

record ('f, 's) codec_env =
  codec_decode :: "api_payload list \<Rightarrow> 's \<Rightarrow> (error + returned list) \<times> 's"
  codec_encode :: "api_payload list \<Rightarrow> 's \<Rightarrow> (error + returned list) \<times> 's"
  failure_decode :: "'f \<Rightarrow> 's \<Rightarrow> (error option \<times> 'f) \<times> 's"
  failure_encode :: "'f \<Rightarrow> 's \<Rightarrow> (error option \<times> 'f) \<times> 's"

text \<open>
  The calls the traversal makes, in the order it makes them, with their arguments. The
  source keeps no such list; the model records every call so that what is called, how
  often and in which order can be stated. Within a pass each call starts in the codec
  state the call before it has left: an \<open>await\<close> returns before the next statement runs.
\<close>

datatype 'f call =
    PayloadDecode "api_payload list"
  | PayloadEncode "api_payload list"
  | FailureDecode 'f
  | FailureEncode 'f

record ('f, 's) world =
  calls :: "'f call list"
  cstate :: 's

text \<open>
  An in-place update of an object of type \<open>'a\<close>: it returns the object as the code leaves
  it, together with the exception raised, if any. The object is returned in the error case
  too, because mutations made before the exception stay visible to the caller.
\<close>

type_synonym ('a, 'f, 's) upd =
  "'a \<Rightarrow> ('f, 's) world \<Rightarrow> (error option \<times> 'a) \<times> ('f, 's) world"

type_synonym ('f, 's) callback =
  "api_payload list \<Rightarrow> ('f, 's) world \<Rightarrow> (error + returned list) \<times> ('f, 's) world"

definition decode_cb :: "('f, 's) codec_env \<Rightarrow> ('f, 's) callback" where
  \<comment> \<open>\<open>await codec.decode(ps)\<close>, recorded\<close>
  "decode_cb env ps w =
     (case codec_decode env ps (cstate w) of
        (r, s') \<Rightarrow> (r, \<lparr>calls = calls w @ [PayloadDecode ps], cstate = s'\<rparr>))"

definition encode_cb :: "('f, 's) codec_env \<Rightarrow> ('f, 's) callback" where
  \<comment> \<open>\<open>await codec.encode(ps)\<close>, recorded\<close>
  "encode_cb env ps w =
     (case codec_encode env ps (cstate w) of
        (r, s') \<Rightarrow> (r, \<lparr>calls = calls w @ [PayloadEncode ps], cstate = s'\<rparr>))"

definition decode_failure :: "('f, 's) codec_env \<Rightarrow> ('f, 'f, 's) upd" where
  \<comment> \<open>\<open>await temporalio.exceptions.decode_failure(failure, codec)\<close>, recorded\<close>
  "decode_failure env failure w =
     (case failure_decode env failure (cstate w) of
        (r, s') \<Rightarrow> (r, \<lparr>calls = calls w @ [FailureDecode failure], cstate = s'\<rparr>))"

definition encode_failure :: "('f, 's) codec_env \<Rightarrow> ('f, 'f, 's) upd" where
  \<comment> \<open>\<open>await temporalio.exceptions.encode_failure(failure, codec)\<close>, recorded\<close>
  "encode_failure env failure w =
     (case failure_encode env failure (cstate w) of
        (r, s') \<Rightarrow> (r, \<lparr>calls = calls w @ [FailureEncode failure], cstate = s'\<rparr>))"

subsection \<open>Sequencing of in-place updates\<close>

definition rebuild :: "('a \<Rightarrow> 'b) \<Rightarrow> (error option \<times> 'a) \<times> 'w \<Rightarrow> (error option \<times> 'b) \<times> 'w" where
  \<comment> \<open>the updated part put back into the object that owns it\<close>
  "rebuild k r = (case r of ((e, x), w) \<Rightarrow> ((e, k x), w))"

definition and_then ::
  "(error option \<times> 'a) \<times> 'w \<Rightarrow> ('a \<Rightarrow> 'b) \<Rightarrow> ('a \<Rightarrow> 'w \<Rightarrow> (error option \<times> 'b) \<times> 'w)
   \<Rightarrow> (error option \<times> 'b) \<times> 'w" where
  \<comment> \<open>statement sequencing: an exception in the first statement skips the rest\<close>
  "and_then r k rest =
     (case r of
        ((Some e, x), w) \<Rightarrow> ((Some e, k x), w)
      | ((None, x), w) \<Rightarrow> rest x w)"

definition if_present :: "('a, 'f, 's) upd \<Rightarrow> ('a option, 'f, 's) upd" where
  \<comment> \<open>\<open>if msg.HasField(field): await u(msg.field)\<close>\<close>
  "if_present u field w =
     (case field of
        None \<Rightarrow> ((None, None), w)
      | Some x \<Rightarrow> rebuild Some (u x w))"

fun for_each :: "('a, 'f, 's) upd \<Rightarrow> ('a list, 'f, 's) upd" where
  \<comment> \<open>\<open>for x in xs: await u(x)\<close>\<close>
  "for_each u [] w = ((None, []), w)"
| "for_each u (x # xs) w =
     and_then (u x w) (\<lambda>x'. x' # xs)
       (\<lambda>x' w'. rebuild (\<lambda>xs'. x' # xs') (for_each u xs w'))"

definition for_each_value :: "('a, 'f, 's) upd \<Rightarrow> ((string \<times> 'a) list, 'f, 's) upd" where
  \<comment> \<open>\<open>for val in m.values(): await u(val)\<close>, the map \<open>m\<close> listed in iteration order\<close>
  "for_each_value u = for_each (\<lambda>(k, val) w. rebuild (\<lambda>val'. (k, val')) (u val w))"

section \<open>Applying a codec to payload fields\<close>

definition apply_to_bridge_payloads ::
  "('f, 's) callback \<Rightarrow> (bridge_payload list, 'f, 's) upd" where
  "apply_to_bridge_payloads cb payloads w =
     (if length payloads = 0 then ((None, payloads), w)
      else
        (case cb (from_bridge_payloads payloads) w of
           (Inl e, w') \<Rightarrow> ((Some e, payloads), w')
         | (Inr result, w') \<Rightarrow>
             (let new_payloads = to_bridge_payloads (map returned_payload result)
              in ((None, [] @ new_payloads), w'))))"

definition apply_to_bridge_payload ::
  "('f, 's) callback \<Rightarrow> (bridge_payload, 'f, 's) upd" where
  "apply_to_bridge_payload cb payload w =
     (case cb [from_bridge_payload payload] w of
        (Inl e, w') \<Rightarrow> ((Some e, payload), w')
      | (Inr [], w') \<Rightarrow> ((Some IndexError, payload), w')
      | (Inr (new_payload # _), w') \<Rightarrow>
          ((None,
            payload\<lparr>bridge_metadata := Map.empty ++ api_metadata (returned_payload new_payload),
                    bridge_data := api_data (returned_payload new_payload)\<rparr>), w'))"

definition decode_bridge_payloads ::
  "('f, 's) codec_env \<Rightarrow> (bridge_payload list, 'f, 's) upd" where
  "decode_bridge_payloads env payloads = apply_to_bridge_payloads (decode_cb env) payloads"

definition decode_bridge_payload ::
  "('f, 's) codec_env \<Rightarrow> (bridge_payload, 'f, 's) upd" where
  "decode_bridge_payload env payload = apply_to_bridge_payload (decode_cb env) payload"

definition encode_bridge_payloads ::
  "('f, 's) codec_env \<Rightarrow> (bridge_payload list, 'f, 's) upd" where
  "encode_bridge_payloads env payloads = apply_to_bridge_payloads (encode_cb env) payloads"

definition encode_bridge_payload ::
  "('f, 's) codec_env \<Rightarrow> (bridge_payload, 'f, 's) upd" where
  "encode_bridge_payload env payload = apply_to_bridge_payload (encode_cb env) payload"

text \<open>
  The memo of a start-workflow job holds API payloads, and the decoder hands each value
  to the codec as it is, not a copy of it. When the codec returns that very object,
  \<open>new_payload\<close> and \<open>val\<close> are one object: \<open>val.metadata.clear()\<close> empties the metadata
  of both, so the update copies nothing and the value is left with empty metadata and the
  data the codec left in it. When the codec returns an object of its own, the value takes
  its metadata and data.
\<close>

definition decode_memo_value :: "('f, 's) codec_env \<Rightarrow> (api_payload, 'f, 's) upd" where
  \<comment> \<open>the body of the loop over \<open>job.start_workflow.memo.fields.values()\<close>, on API payloads\<close>
  "decode_memo_value env val w =
     (case decode_cb env [val] w of
        (Inl e, w') \<Rightarrow> ((Some e, val), w')
      | (Inr [], w') \<Rightarrow> ((Some IndexError, val), w')
      | (Inr (new_payload # _), w') \<Rightarrow>
          (let same = is_argument new_payload;
               val0 = (if same then returned_payload new_payload else val);
               val1 = val0\<lparr>api_metadata := Map.empty\<rparr>;
               new1 = (if same then val1 else returned_payload new_payload);
               val2 = val1\<lparr>api_metadata := api_metadata val1 ++ api_metadata new1\<rparr>;
               val3 = val2\<lparr>api_data := api_data new1\<rparr>
           in ((None, val3), w')))"

section \<open>Activations and completions\<close>

text \<open>
  The message classes are generated from the core's protobuf schema. Each \<open>oneof\<close> is a
  datatype with one constructor per member the traversal tests with \<open>HasField\<close> and one
  constructor for everything else (another member, or none set); exactly one member of a
  \<open>oneof\<close> is set at a time, so an \<open>if\<close>/\<open>elif\<close> chain of \<open>HasField\<close> tests is a case
  distinction. An optional sub-message is an \<open>option\<close>, a repeated field a list, a map
  field the list of its entries in iteration order. A constructor carries the fields the
  traversal reads, and in \<open>'o\<close> all its other fields (ids, names, timestamps, options).
  \<open>'p\<close> is the bridge payload, \<open>'q\<close> the API payload, \<open>'f\<close> the failure message.
  The results of an activity and of a child workflow are different message classes with
  the same three members \<open>cancelled\<close>, \<open>completed\<close> and \<open>failed\<close>; one datatype serves
  both, and each has its own traversal function below.
\<close>

datatype ('p, 'f, 'o) resolution =
    Cancelled 'f
  | Completed "'p option"
  | Failed 'f
  | OtherResolution 'o

datatype ('f, 'o) start_resolution =
    StartCancelled 'f
  | OtherStart 'o

datatype ('p, 'q, 'f, 'o) job =
    CancelWorkflow "'p list" 'o
  | QueryWorkflow "'p list" 'o
  | ResolveActivity "('p, 'f, 'o) resolution" 'o
  | ResolveChildWorkflowExecution "('p, 'f, 'o) resolution" 'o
  | ResolveChildWorkflowExecutionStart "('f, 'o) start_resolution" 'o
  | ResolveRequestCancelExternalWorkflow "'f option" 'o
  | ResolveSignalExternalWorkflow "'f option" 'o
  | SignalWorkflow "'p list" 'o
  | StartWorkflow "'p list" "'f option" "(string \<times> 'q) list" 'o
  | OtherJob 'o

datatype ('p, 'q, 'f, 'o) activation =
  Activation (jobs: "('p, 'q, 'f, 'o) job list") (activation_rest: 'o)

datatype ('p, 'f, 'o) query_result =
    QueryFailed 'f
  | QuerySucceeded "'p option"
  | OtherQueryResult 'o

datatype ('p, 'f, 'o) command =
    CompleteWorkflowExecution "'p option" 'o
  | ContinueAsNewWorkflowExecution "'p list" "(string \<times> 'p) list" 'o
  | FailWorkflowExecution 'f 'o
  | RespondToQuery "('p, 'f, 'o) query_result" 'o
  | ScheduleActivity "'p list" 'o
  | ScheduleLocalActivity "'p list" 'o
  | SignalExternalWorkflowExecution "'p list" 'o
  | StartChildWorkflowExecution "'p list" "(string \<times> 'p) list" 'o
  | OtherCommand 'o

datatype ('p, 'f, 'o) completion_status =
    CompletionFailed 'f
  | Successful "('p, 'f, 'o) command list"
  | OtherStatus

datatype ('p, 'f, 'o) completion =
  Completion (status: "('p, 'f, 'o) completion_status") (completion_rest: 'o)

type_synonym ('f, 'o) wf_job = "(bridge_payload, api_payload, 'f, 'o) job"
type_synonym ('f, 'o) wf_activation = "(bridge_payload, api_payload, 'f, 'o) activation"
type_synonym ('f, 'o) wf_command = "(bridge_payload, 'f, 'o) command"
type_synonym ('f, 'o) wf_completion = "(bridge_payload, 'f, 'o) completion"

section \<open>The activation decoder\<close>

fun decode_activity_result ::
  "('f, 's) codec_env \<Rightarrow> ((bridge_payload, 'f, 'o) resolution, 'f, 's) upd" where
  \<comment> \<open>the branch on \<open>job.resolve_activity.result\<close>\<close>
  "decode_activity_result env (Cancelled failure) w =
     rebuild Cancelled (decode_failure env failure w)"
| "decode_activity_result env (Completed result) w =
     rebuild Completed (if_present (decode_bridge_payload env) result w)"
| "decode_activity_result env (Failed failure) w =
     rebuild Failed (decode_failure env failure w)"
| "decode_activity_result env (OtherResolution x) w = ((None, OtherResolution x), w)"

fun decode_child_result ::
  "('f, 's) codec_env \<Rightarrow> ((bridge_payload, 'f, 'o) resolution, 'f, 's) upd" where
  \<comment> \<open>the branch on \<open>job.resolve_child_workflow_execution.result\<close>\<close>
  "decode_child_result env (Cancelled failure) w =
     rebuild Cancelled (decode_failure env failure w)"
| "decode_child_result env (Completed (Some result)) w =
     rebuild (\<lambda>result'. Completed (Some result')) (decode_bridge_payload env result w)"
| "decode_child_result env (Completed None) w = ((None, Completed None), w)"
| "decode_child_result env (Failed failure) w =
     rebuild Failed (decode_failure env failure w)"
| "decode_child_result env (OtherResolution x) w = ((None, OtherResolution x), w)"

fun decode_child_start ::
  "('f, 's) codec_env \<Rightarrow> (('f, 'o) start_resolution, 'f, 's) upd" where
  "decode_child_start env (StartCancelled failure) w =
     rebuild StartCancelled (decode_failure env failure w)"
| "decode_child_start env (OtherStart x) w = ((None, OtherStart x), w)"

fun decode_job :: "('f, 's) codec_env \<Rightarrow> (('f, 'o) wf_job, 'f, 's) upd" where
  \<comment> \<open>the body of \<open>for job in act.jobs\<close>\<close>
  "decode_job env (CancelWorkflow details x) w =
     rebuild (\<lambda>details'. CancelWorkflow details' x) (decode_bridge_payloads env details w)"
| "decode_job env (QueryWorkflow arguments x) w =
     rebuild (\<lambda>arguments'. QueryWorkflow arguments' x)
       (decode_bridge_payloads env arguments w)"
| "decode_job env (ResolveActivity result x) w =
     rebuild (\<lambda>result'. ResolveActivity result' x) (decode_activity_result env result w)"
| "decode_job env (ResolveChildWorkflowExecution result x) w =
     rebuild (\<lambda>result'. ResolveChildWorkflowExecution result' x)
       (decode_child_result env result w)"
| "decode_job env (ResolveChildWorkflowExecutionStart st x) w =
     rebuild (\<lambda>st'. ResolveChildWorkflowExecutionStart st' x) (decode_child_start env st w)"
| "decode_job env (ResolveRequestCancelExternalWorkflow failure x) w =
     rebuild (\<lambda>failure'. ResolveRequestCancelExternalWorkflow failure' x)
       (if_present (decode_failure env) failure w)"
| "decode_job env (ResolveSignalExternalWorkflow failure x) w =
     rebuild (\<lambda>failure'. ResolveSignalExternalWorkflow failure' x)
       (if_present (decode_failure env) failure w)"
| "decode_job env (SignalWorkflow input x) w =
     rebuild (\<lambda>input'. SignalWorkflow input' x) (decode_bridge_payloads env input w)"
| "decode_job env (StartWorkflow arguments continued_failure memo x) w =
     and_then (decode_bridge_payloads env arguments w)
       (\<lambda>arguments'. StartWorkflow arguments' continued_failure memo x)
       (\<lambda>arguments' w1.
          and_then (if_present (decode_failure env) continued_failure w1)
            (\<lambda>continued_failure'. StartWorkflow arguments' continued_failure' memo x)
            (\<lambda>continued_failure' w2.
               rebuild (\<lambda>memo'. StartWorkflow arguments' continued_failure' memo' x)
                 (for_each_value (decode_memo_value env) memo w2)))"
| "decode_job env (OtherJob x) w = ((None, OtherJob x), w)"

definition decode_activation ::
  "('f, 's) codec_env \<Rightarrow> (('f, 'o) wf_activation, 'f, 's) upd" where
  "decode_activation env act w =
     rebuild (\<lambda>jobs'. Activation jobs' (activation_rest act))
       (for_each (decode_job env) (jobs act) w)"

section \<open>The completion encoder\<close>

fun encode_query_result ::
  "('f, 's) codec_env \<Rightarrow> ((bridge_payload, 'f, 'o) query_result, 'f, 's) upd" where
  \<comment> \<open>the branch on \<open>command.respond_to_query\<close>\<close>
  "encode_query_result env (QueryFailed failed) w =
     rebuild QueryFailed (encode_failure env failed w)"
| "encode_query_result env (QuerySucceeded (Some response)) w =
     rebuild (\<lambda>response'. QuerySucceeded (Some response'))
       (encode_bridge_payload env response w)"
| "encode_query_result env (QuerySucceeded None) w = ((None, QuerySucceeded None), w)"
| "encode_query_result env (OtherQueryResult x) w = ((None, OtherQueryResult x), w)"

fun encode_command :: "('f, 's) codec_env \<Rightarrow> (('f, 'o) wf_command, 'f, 's) upd" where
  \<comment> \<open>the body of \<open>for command in comp.successful.commands\<close>\<close>
  "encode_command env (CompleteWorkflowExecution result x) w =
     rebuild (\<lambda>result'. CompleteWorkflowExecution result' x)
       (if_present (encode_bridge_payload env) result w)"
| "encode_command env (ContinueAsNewWorkflowExecution arguments memo x) w =
     and_then (encode_bridge_payloads env arguments w)
       (\<lambda>arguments'. ContinueAsNewWorkflowExecution arguments' memo x)
       (\<lambda>arguments' w1.
          rebuild (\<lambda>memo'. ContinueAsNewWorkflowExecution arguments' memo' x)
            (for_each_value (encode_bridge_payload env) memo w1))"
| "encode_command env (FailWorkflowExecution failure x) w =
     rebuild (\<lambda>failure'. FailWorkflowExecution failure' x) (encode_failure env failure w)"
| "encode_command env (RespondToQuery r x) w =
     rebuild (\<lambda>r'. RespondToQuery r' x) (encode_query_result env r w)"
| "encode_command env (ScheduleActivity arguments x) w =
     rebuild (\<lambda>arguments'. ScheduleActivity arguments' x)
       (encode_bridge_payloads env arguments w)"
| "encode_command env (ScheduleLocalActivity arguments x) w =
     rebuild (\<lambda>arguments'. ScheduleLocalActivity arguments' x)
       (encode_bridge_payloads env arguments w)"
| "encode_command env (SignalExternalWorkflowExecution args x) w =
     rebuild (\<lambda>args'. SignalExternalWorkflowExecution args' x)
       (encode_bridge_payloads env args w)"
| "encode_command env (StartChildWorkflowExecution input memo x) w =
     and_then (encode_bridge_payloads env input w)
       (\<lambda>input'. StartChildWorkflowExecution input' memo x)
       (\<lambda>input' w1.
          rebuild (\<lambda>memo'. StartChildWorkflowExecution input' memo' x)
            (for_each_value (encode_bridge_payload env) memo w1))"
| "encode_command env (OtherCommand x) w = ((None, OtherCommand x), w)"

definition encode_completion ::
  "('f, 's) codec_env \<Rightarrow> (('f, 'o) wf_completion, 'f, 's) upd" where
  "encode_completion env completion w =
     (case status completion of
        CompletionFailed failure \<Rightarrow>
          rebuild (\<lambda>failure'. Completion (CompletionFailed failure') (completion_rest completion))
            (encode_failure env failure w)
      | Successful commands \<Rightarrow>
          rebuild (\<lambda>commands'. Completion (Successful commands') (completion_rest completion))
            (for_each (encode_command env) commands w)
      | OtherStatus \<Rightarrow> ((None, completion), w))"

section \<open>The worker handle\<close>

text \<open>
  \<open>Worker._ref\<close> is a reference to an object of the native bridge, or \<open>None\<close>. The
  bridge object's methods are native code and are parameters here: a call on a reference
  (type \<open>'r\<close>) reads and changes the state of the core (type \<open>'n\<close>) and may raise.
\<close>

record ('r, 'n) bridge_ops =
  ref_shutdown :: "'r \<Rightarrow> 'n \<Rightarrow> error option \<times> 'n"
  ref_finalize_shutdown :: "'r \<Rightarrow> 'n \<Rightarrow> error option \<times> 'n"

record 'r worker =
  worker_ref :: "'r option"

definition shutdown ::
  "('r, 'n) bridge_ops \<Rightarrow> 'r worker \<Rightarrow> 'n \<Rightarrow> (error option \<times> 'r worker) \<times> 'n" where
  \<comment> \<open>\<open>await self._ref.shutdown()\<close>; a method call on \<open>None\<close> raises AttributeError\<close>
  "shutdown ops self n =
     (case worker_ref self of
        None \<Rightarrow> ((Some AttributeError, self), n)
      | Some r \<Rightarrow> (case ref_shutdown ops r n of (e, n') \<Rightarrow> ((e, self), n')))"

definition finalize_shutdown ::
  "('r, 'n) bridge_ops \<Rightarrow> 'r worker \<Rightarrow> 'n \<Rightarrow> (error option \<times> 'r worker) \<times> 'n" where
  \<comment> \<open>\<open>ref = self._ref; self._ref = None; await ref.finalize_shutdown()\<close>\<close>
  "finalize_shutdown ops self n =
     (let r = worker_ref self;
          self' = self\<lparr>worker_ref := None\<rparr>
      in case r of
           None \<Rightarrow> ((Some AttributeError, self'), n)
         | Some r' \<Rightarrow> (case ref_finalize_shutdown ops r' n of (e, n') \<Rightarrow> ((e, self'), n')))"

datatype core_state = Active | ShuttingDown | Drained | Finalized

definition core_ops :: "(unit, core_state) bridge_ops" where
  \<comment> \<open>Modelled from the spec: the native core's side of \<open>shutdown\<close> and
      \<open>finalize_shutdown\<close> (Rust code, not in the Python sources). Section 4.1 gives the
      life cycle Active, ShuttingDown, Drained, Finalized: \<open>shutdown()\<close> starts the drain,
      and \<open>finalize_shutdown()\<close> fails without finalizing unless the drain has completed.\<close>
  "core_ops =
     \<lparr>ref_shutdown = (\<lambda>_ n. (None, if n = Active then ShuttingDown else n)),
      ref_finalize_shutdown =
        (\<lambda>_ n. if n = Drained then (None, Finalized)
                else (Some (Raised ''shutdown has not completed''), n))\<rparr>"

section \<open>Retry policies\<close>

text \<open>
  A \<open>datetime.timedelta\<close> is a whole number of microseconds. A protobuf \<open>Duration\<close> holds
  seconds and nanoseconds; \<open>FromTimedelta\<close> and \<open>ToTimedelta\<close> are the protobuf library's
  conversions (\<open>td.days * 86400 + td.seconds\<close> is the floor of the microseconds divided by
  \<open>10^6\<close>, \<open>td.microseconds\<close> the remainder).
\<close>

type_synonym timedelta = int

record duration =
  seconds :: int
  nanos :: int

definition normalize_duration :: "int \<Rightarrow> int \<Rightarrow> duration" where
  "normalize_duration s n =
     (if s < 0 \<and> n > 0 then \<lparr>seconds = s + 1, nanos = n - 1000000000\<rparr>
      else \<lparr>seconds = s, nanos = n\<rparr>)"

definition from_timedelta :: "timedelta \<Rightarrow> duration" where
  "from_timedelta td = normalize_duration (td div 1000000) ((td mod 1000000) * 1000)"

definition round_toward_zero :: "int \<Rightarrow> int \<Rightarrow> int" where
  "round_toward_zero v d =
     (let result = v div d; remainder = v mod d
      in if result < 0 \<and> remainder > 0 then result + 1 else result)"

definition to_timedelta :: "duration \<Rightarrow> timedelta" where
  \<comment> \<open>for a duration within the range of \<open>timedelta\<close>, as every duration written by
      \<open>from_timedelta\<close> is; beyond it the library raises OverflowError\<close>
  "to_timedelta d = seconds d * 1000000 + round_toward_zero (nanos d) 1000"

text \<open>
  Modelled from the spec: \<open>temporalio.common.RetryPolicy\<close>, whose class is not in the
  sources given. Section 3 lists its fields: initial interval, backoff coefficient, optional
  maximum interval, maximum attempts, non-retryable error type names (which section 6 lets
  be absent). The backoff coefficient is a float that both conversions copy; its type is
  left open.
\<close>

record 'b retry_policy =
  initial_interval :: timedelta
  backoff_coefficient :: 'b
  maximum_interval :: "timedelta option"
  maximum_attempts :: int
  non_retryable_error_types :: "string list option"

text \<open>
  The wire message \<open>temporalio.bridge.proto.common.RetryPolicy\<close>: the two durations are
  sub-messages with presence, \<open>maximum_attempts\<close> is an \<open>int32\<close> (assigning a value out of
  range raises ValueError), \<open>non_retryable_error_types\<close> is a repeated field.
\<close>

record 'b proto_retry_policy =
  proto_initial_interval :: "duration option"
  proto_backoff_coefficient :: 'b
  proto_maximum_interval :: "duration option"
  proto_maximum_attempts :: int
  proto_non_retryable_error_types :: "string list"

definition duration_or_default :: "duration option \<Rightarrow> duration" where
  \<comment> \<open>reading a sub-message field that is not set gives the default message\<close>
  "duration_or_default d = (case d of None \<Rightarrow> \<lparr>seconds = 0, nanos = 0\<rparr> | Some x \<Rightarrow> x)"

definition retry_policy_from_proto :: "'b proto_retry_policy \<Rightarrow> 'b retry_policy" where
  "retry_policy_from_proto p =
     \<lparr>initial_interval = to_timedelta (duration_or_default (proto_initial_interval p)),
      backoff_coefficient = proto_backoff_coefficient p,
      maximum_interval =
        (case proto_maximum_interval p of
           Some d \<Rightarrow> Some (to_timedelta d)
         | None \<Rightarrow> None),
      maximum_attempts = proto_maximum_attempts p,
      non_retryable_error_types = Some (proto_non_retryable_error_types p)\<rparr>"

definition retry_policy_to_proto ::
  "'b retry_policy \<Rightarrow> 'b proto_retry_policy \<Rightarrow> error option \<times> 'b proto_retry_policy" where
  \<comment> \<open>mutates \<open>v\<close> in place; \<open>if p.maximum_interval:\<close> is false for \<open>None\<close> and for a
      zero timedelta, \<open>if p.non_retryable_error_types:\<close> for \<open>None\<close> and for an empty list\<close>
  "retry_policy_to_proto p v =
     (let v1 = v\<lparr>proto_initial_interval := Some (from_timedelta (initial_interval p))\<rparr>;
          v2 = v1\<lparr>proto_backoff_coefficient := backoff_coefficient p\<rparr>;
          v3 = (case maximum_interval p of
                  None \<Rightarrow> v2
                | Some td \<Rightarrow>
                    if td = 0 then v2
                    else v2\<lparr>proto_maximum_interval := Some (from_timedelta td)\<rparr>)
      in if maximum_attempts p < - 2147483648 \<or> 2147483647 < maximum_attempts p
         then (Some ValueError, v3)
         else
           (let v4 = v3\<lparr>proto_maximum_attempts := maximum_attempts p\<rparr>;
                v5 = (case non_retryable_error_types p of
                        None \<Rightarrow> v4
                      | Some types \<Rightarrow>
                          if types = [] then v4
                          else v4\<lparr>proto_non_retryable_error_types :=
                                    proto_non_retryable_error_types v4 @ types\<rparr>)
            in (None, v5)))"

section \<open>The specification's transformation tables, as lists of calls\<close>

text \<open>
  Sections 4.2 and 4.3 of the specification give, per job and command variant, what is
  transformed and in which order. The functions below follow those tables (not the code):
  they list the codec calls a variant asks for, with the arguments taken from the message
  as it is before the pass. A payload sequence asks for one call with all its elements,
  none when it is empty; an optional field for one call when it is present; a memo for
  one single-element call per value.
\<close>

definition api_view :: "bridge_payload \<Rightarrow> api_payload" where
  \<comment> \<open>the API payload with the metadata and the data of a bridge payload\<close>
  "api_view q = \<lparr>api_metadata = bridge_metadata q, api_data = bridge_data q\<rparr>"

definition bridge_view :: "api_payload \<Rightarrow> bridge_payload" where
  \<comment> \<open>the bridge payload with the metadata and the data of an API payload\<close>
  "bridge_view p = \<lparr>bridge_metadata = api_metadata p, bridge_data = api_data p\<rparr>"

definition payload_seq_calls ::
  "(api_payload list \<Rightarrow> 'f call) \<Rightarrow> bridge_payload list \<Rightarrow> 'f call list" where
  "payload_seq_calls mk payloads =
     (if payloads = [] then [] else [mk (map api_view payloads)])"

definition payload_opt_calls ::
  "(api_payload list \<Rightarrow> 'f call) \<Rightarrow> bridge_payload option \<Rightarrow> 'f call list" where
  "payload_opt_calls mk payload =
     (case payload of None \<Rightarrow> [] | Some p \<Rightarrow> [mk [api_view p]])"

definition failure_opt_calls :: "('f \<Rightarrow> 'f call) \<Rightarrow> 'f option \<Rightarrow> 'f call list" where
  "failure_opt_calls mk failure = (case failure of None \<Rightarrow> [] | Some f \<Rightarrow> [mk f])"

fun spec_resolution_calls :: "(bridge_payload, 'f, 'o) resolution \<Rightarrow> 'f call list" where
  "spec_resolution_calls (Cancelled failure) = [FailureDecode failure]"
| "spec_resolution_calls (Completed result) = payload_opt_calls PayloadDecode result"
| "spec_resolution_calls (Failed failure) = [FailureDecode failure]"
| "spec_resolution_calls (OtherResolution x) = []"

fun spec_job_calls :: "('f, 'o) wf_job \<Rightarrow> 'f call list" where
  "spec_job_calls (CancelWorkflow details x) = payload_seq_calls PayloadDecode details"
| "spec_job_calls (QueryWorkflow arguments x) = payload_seq_calls PayloadDecode arguments"
| "spec_job_calls (ResolveActivity result x) = spec_resolution_calls result"
| "spec_job_calls (ResolveChildWorkflowExecution result x) = spec_resolution_calls result"
| "spec_job_calls (ResolveChildWorkflowExecutionStart (StartCancelled failure) x) =
     [FailureDecode failure]"
| "spec_job_calls (ResolveChildWorkflowExecutionStart (OtherStart y) x) = []"
| "spec_job_calls (ResolveRequestCancelExternalWorkflow failure x) =
     failure_opt_calls FailureDecode failure"
| "spec_job_calls (ResolveSignalExternalWorkflow failure x) =
     failure_opt_calls FailureDecode failure"
| "spec_job_calls (SignalWorkflow input x) = payload_seq_calls PayloadDecode input"
| "spec_job_calls (StartWorkflow arguments continued_failure memo x) =
     payload_seq_calls PayloadDecode arguments
     @ failure_opt_calls FailureDecode continued_failure
     @ map (\<lambda>(k, val). PayloadDecode [val]) memo"
| "spec_job_calls (OtherJob x) = []"

definition spec_activation_calls :: "('f, 'o) wf_activation \<Rightarrow> 'f call list" where
  "spec_activation_calls act = concat (map spec_job_calls (jobs act))"

fun spec_command_calls :: "('f, 'o) wf_command \<Rightarrow> 'f call list" where
  "spec_command_calls (CompleteWorkflowExecution result x) =
     payload_opt_calls PayloadEncode result"
| "spec_command_calls (ContinueAsNewWorkflowExecution arguments memo x) =
     payload_seq_calls PayloadEncode arguments
     @ map (\<lambda>(k, val). PayloadEncode [api_view val]) memo"
| "spec_command_calls (FailWorkflowExecution failure x) = [FailureEncode failure]"
| "spec_command_calls (RespondToQuery (QueryFailed failed) x) = [FailureEncode failed]"
| "spec_command_calls (RespondToQuery (QuerySucceeded response) x) =
     payload_opt_calls PayloadEncode response"
| "spec_command_calls (RespondToQuery (OtherQueryResult y) x) = []"
| "spec_command_calls (ScheduleActivity arguments x) =
     payload_seq_calls PayloadEncode arguments"
| "spec_command_calls (ScheduleLocalActivity arguments x) =
     payload_seq_calls PayloadEncode arguments"
| "spec_command_calls (SignalExternalWorkflowExecution args x) =
     payload_seq_calls PayloadEncode args"
| "spec_command_calls (StartChildWorkflowExecution input memo x) =
     payload_seq_calls PayloadEncode input
     @ map (\<lambda>(k, val). PayloadEncode [api_view val]) memo"
| "spec_command_calls (OtherCommand x) = []"

definition spec_completion_calls :: "('f, 'o) wf_completion \<Rightarrow> 'f call list" where
  "spec_completion_calls completion =
     (case status completion of
        CompletionFailed failure \<Rightarrow> [FailureEncode failure]
      | Successful commands \<Rightarrow> concat (map spec_command_calls commands)
      | OtherStatus \<Rightarrow> [])"

text \<open>
  The state a codec is in after a list of calls made one after the other, each call
  starting in the state the call before it has left.
\<close>

definition state_after_call :: "('f, 's) codec_env \<Rightarrow> 's \<Rightarrow> 'f call \<Rightarrow> 's" where
  "state_after_call env s c =
     (case c of
        PayloadDecode ps \<Rightarrow> snd (codec_decode env ps s)
      | PayloadEncode ps \<Rightarrow> snd (codec_encode env ps s)
      | FailureDecode f \<Rightarrow> snd (failure_decode env f s)
      | FailureEncode f \<Rightarrow> snd (failure_encode env f s))"

definition state_after_calls :: "('f, 's) codec_env \<Rightarrow> 's \<Rightarrow> 'f call list \<Rightarrow> 's" where
  "state_after_calls env s cs = foldl (state_after_call env) s cs"

text \<open>
  \<open>traced env r w cs\<close>: the pass that started in \<open>w\<close> and ended as \<open>r\<close> made the calls
  \<open>cs\<close> in that order, or, when it raised, an initial part of them, one after the other.
\<close>

definition traced ::
  "('f, 's) codec_env \<Rightarrow> (error option \<times> 'a) \<times> ('f, 's) world \<Rightarrow> ('f, 's) world
   \<Rightarrow> 'f call list \<Rightarrow> bool" where
  "traced env r w cs \<longleftrightarrow>
     (\<exists>k. calls (snd r) = calls w @ k \<and> prefix k cs \<and> (fst (fst r) = None \<longrightarrow> k = cs)
          \<and> cstate (snd r) = state_after_calls env (cstate w) k)"

section \<open>The shape of a message\<close>

text \<open>
  The shape of an activation or completion is what is left when the contents of every
  payload and every failure are forgotten: the jobs or commands in their order, the variant
  of each, which optional fields are present, how many payloads each sequence holds, the
  keys of each memo in their order, and all the other fields (\<open>'o\<close>) as they are.
\<close>

definition shape_of_activation ::
  "('p, 'q, 'f, 'o) activation \<Rightarrow> (unit, unit, unit, 'o) activation" where
  "shape_of_activation = map_activation (\<lambda>_. ()) (\<lambda>_. ()) (\<lambda>_. ()) id"

definition shape_of_completion ::
  "('p, 'f, 'o) completion \<Rightarrow> (unit, unit, 'o) completion" where
  "shape_of_completion = map_completion (\<lambda>_. ()) (\<lambda>_. ()) id"

text \<open>
  The message in which every payload has been replaced, where it stands, by what a
  function on payloads gives for it, and every failure by what a function on failures
  gives for it.
\<close>

definition image_of_activation ::
  "(api_payload \<Rightarrow> api_payload) \<Rightarrow> ('f \<Rightarrow> 'f) \<Rightarrow> ('f, 'o) wf_activation \<Rightarrow> ('f, 'o) wf_activation"
  where
  "image_of_activation g h = map_activation (\<lambda>q. bridge_view (g (api_view q))) g h id"

definition image_of_completion ::
  "(api_payload \<Rightarrow> api_payload) \<Rightarrow> ('f \<Rightarrow> 'f) \<Rightarrow> ('f, 'o) wf_completion \<Rightarrow> ('f, 'o) wf_completion"
  where
  "image_of_completion g h = map_completion (\<lambda>q. bridge_view (g (api_view q))) h id"

section \<open>Example inputs\<close>

definition sample_payload :: "8 word \<Rightarrow> bridge_payload" where
  "sample_payload b = \<lparr>bridge_metadata = [''encoding'' \<mapsto> [b]], bridge_data = [b, b]\<rparr>"

definition mark :: "8 word \<Rightarrow> api_payload \<Rightarrow> api_payload" where
  "mark b p = p\<lparr>api_data := b # api_data p\<rparr>"

definition marking_env :: "(string, nat) codec_env" where
  \<comment> \<open>a codec that prefixes a byte to every payload and counts its calls\<close>
  "marking_env =
     \<lparr>codec_decode = (\<lambda>ps s. (Inr (map (\<lambda>p. fresh (mark 1 p)) ps), Suc s)),
      codec_encode = (\<lambda>ps s. (Inr (map (\<lambda>p. fresh (mark 2 p)) ps), Suc s)),
      failure_decode = (\<lambda>f s. ((None, ''decoded '' @ f), Suc s)),
      failure_encode = (\<lambda>f s. ((None, ''encoded '' @ f), Suc s))\<rparr>"

definition dropping_env :: "(string, nat) codec_env" where
  \<comment> \<open>a codec that breaks its contract: it returns one payload fewer than it was given\<close>
  "dropping_env =
     \<lparr>codec_decode = (\<lambda>ps s. (Inr (map fresh (tl ps)), Suc s)),
      codec_encode = (\<lambda>ps s. (Inr (map fresh (tl ps)), Suc s)),
      failure_decode = (\<lambda>f s. ((None, f), Suc s)),
      failure_encode = (\<lambda>f s. ((None, f), Suc s))\<rparr>"

definition doubling_env :: "(string, nat) codec_env" where
  \<comment> \<open>a codec that breaks its contract: it returns every payload twice\<close>
  "doubling_env =
     \<lparr>codec_decode = (\<lambda>ps s. (Inr (map fresh (ps @ ps)), Suc s)),
      codec_encode = (\<lambda>ps s. (Inr (map fresh (ps @ ps)), Suc s)),
      failure_decode = (\<lambda>f s. ((None, f), Suc s)),
      failure_encode = (\<lambda>f s. ((None, f), Suc s))\<rparr>"

definition passthrough_env :: "(string, nat) codec_env" where
  \<comment> \<open>a codec that hands back the very objects it was given, unchanged\<close>
  "passthrough_env =
     \<lparr>codec_decode = (\<lambda>ps s. (Inr (map handed_back ps), Suc s)),
      codec_encode = (\<lambda>ps s. (Inr (map handed_back ps), Suc s)),
      failure_decode = (\<lambda>f s. ((None, f), Suc s)),
      failure_encode = (\<lambda>f s. ((None, f), Suc s))\<rparr>"

definition raising_env :: "(string, nat) codec_env" where
  \<comment> \<open>a codec whose every call raises\<close>
  "raising_env =
     \<lparr>codec_decode = (\<lambda>ps s. (Inl (Raised ''codec failed''), Suc s)),
      codec_encode = (\<lambda>ps s. (Inl (Raised ''codec failed''), Suc s)),
      failure_decode = (\<lambda>f s. ((None, f), Suc s)),
      failure_encode = (\<lambda>f s. ((None, f), Suc s))\<rparr>"

definition start_world :: "(string, nat) world" where
  "start_world = \<lparr>calls = [], cstate = 0\<rparr>"

definition sample_activation :: "(string, string) wf_activation" where
  "sample_activation =
     Activation
       [SignalWorkflow [sample_payload 1, sample_payload 2, sample_payload 3] ''signal'',
        OtherJob ''fire_timer'',
        StartWorkflow [] (Some ''failure'')
          [(''k'', from_bridge_payload (sample_payload 4))] ''start'']
       ''run-1''"

definition sample_completion :: "(string, string) wf_completion" where
  "sample_completion =
     Completion
       (Successful
          [ScheduleActivity [sample_payload 1, sample_payload 2] ''activity'',
           RespondToQuery (QuerySucceeded None) ''query'',
           ContinueAsNewWorkflowExecution [sample_payload 3]
             [(''k'', sample_payload 4)] ''continue''])
       ''run-1''"

definition sample_policy :: "int retry_policy" where
  "sample_policy =
     \<lparr>initial_interval = 1000000, backoff_coefficient = 2,
      maximum_interval = Some 0, maximum_attempts = 3,
      non_retryable_error_types = Some [''Fatal'']\<rparr>"

definition fresh_proto_policy :: "int proto_retry_policy" where
  \<comment> \<open>a newly constructed wire message: nothing set\<close>
  "fresh_proto_policy =
     \<lparr>proto_initial_interval = None, proto_backoff_coefficient = 0,
      proto_maximum_interval = None, proto_maximum_attempts = 0,
      proto_non_retryable_error_types = []\<rparr>"

section \<open>Payload conversions are mutually inverse\<close>

lemma from_to_bridge_payload [simp]: "from_bridge_payload (to_bridge_payload p) = p"
  by (simp add: from_bridge_payload_def to_bridge_payload_def)

lemma to_from_bridge_payload [simp]: "to_bridge_payload (from_bridge_payload q) = q"
  by (simp add: from_bridge_payload_def to_bridge_payload_def)

lemma length_from_bridge_payloads [simp]:
  "length (from_bridge_payloads qs) = length qs"
  by (simp add: from_bridge_payloads_def)

lemma length_to_bridge_payloads [simp]:
  "length (to_bridge_payloads ps) = length ps"
  by (simp add: to_bridge_payloads_def)

text \<open>
  C10. Converting an API payload to a bridge payload and back gives the same payload
  (metadata map and data), and so does the other direction; the list versions are the
  element-wise conversions, so they keep length and order and are inverse to each other.
\<close>

theorem payload_conversion_round_trip:
  "from_bridge_payload (to_bridge_payload p) = p
   \<and> api_metadata (from_bridge_payload (to_bridge_payload p)) = api_metadata p
   \<and> api_data (from_bridge_payload (to_bridge_payload p)) = api_data p
   \<and> to_bridge_payload (from_bridge_payload q) = q
   \<and> from_bridge_payloads (to_bridge_payloads ps) = ps
   \<and> to_bridge_payloads (from_bridge_payloads qs) = qs
   \<and> length (to_bridge_payloads ps) = length ps
   \<and> length (from_bridge_payloads qs) = length qs
   \<and> to_bridge_payloads ps = map to_bridge_payload ps
   \<and> from_bridge_payloads qs = map from_bridge_payload qs"
  by (simp add: from_bridge_payloads_def to_bridge_payloads_def comp_def)

section \<open>A payload sequence is transformed by one call\<close>

lemma api_view_eq: "from_bridge_payload = api_view"
  by (rule ext) (simp add: from_bridge_payload_def api_view_def)

lemma bridge_view_eq: "to_bridge_payload = bridge_view"
  by (rule ext) (simp add: to_bridge_payload_def bridge_view_def)

lemma apply_to_bridge_payloads_nonempty:
  "payloads \<noteq> [] \<Longrightarrow>
   apply_to_bridge_payloads cb payloads w =
     (case cb (map api_view payloads) w of
        (Inl e, w') \<Rightarrow> ((Some e, payloads), w')
      | (Inr result, w') \<Rightarrow>
          ((None, map (\<lambda>x. bridge_view (returned_payload x)) result), w'))"
  by (simp add: apply_to_bridge_payloads_def from_bridge_payloads_def to_bridge_payloads_def
        api_view_eq bridge_view_eq comp_def cong: prod.case_cong sum.case_cong)

lemma apply_to_bridge_payloads_empty: "apply_to_bridge_payloads cb [] w = ((None, []), w)"
  by (simp add: apply_to_bridge_payloads_def)

lemma apply_to_bridge_payload_eq:
  "apply_to_bridge_payload cb payload w =
     (case cb [api_view payload] w of
        (Inl e, w') \<Rightarrow> ((Some e, payload), w')
      | (Inr [], w') \<Rightarrow> ((Some IndexError, payload), w')
      | (Inr (new_payload # extra), w') \<Rightarrow>
          ((None, bridge_view (returned_payload new_payload)), w'))"
  by (simp add: apply_to_bridge_payload_def api_view_eq bridge_view_def
        split: prod.splits sum.splits list.splits)

lemma decode_memo_value_eq:
  "decode_memo_value env val w =
     (case decode_cb env [val] w of
        (Inl e, w') \<Rightarrow> ((Some e, val), w')
      | (Inr [], w') \<Rightarrow> ((Some IndexError, val), w')
      | (Inr (new_payload # extra), w') \<Rightarrow>
          ((None,
            if is_argument new_payload
            then \<lparr>api_metadata = Map.empty, api_data = api_data (returned_payload new_payload)\<rparr>
            else returned_payload new_payload), w'))"
  by (simp add: decode_memo_value_def Let_def split: prod.splits sum.splits list.splits)

text \<open>
  C2. A payload sequence \<open>P\<close> of length at least one, decoded or encoded. The pass makes
  exactly one codec call: the list of calls grows by one entry, whose argument holds, for
  every element of \<open>P\<close> and in the order of \<open>P\<close>, the payload with that element's
  metadata and data. When the call returns \<open>r\<close>, no error is raised and the field holds,
  for every element of \<open>r\<close> and in the order of \<open>r\<close>, the payload with that element's
  metadata and data: element \<open>i\<close> of the result stands at position \<open>i\<close>. When the call
  raises, the error is passed on and the field is as it was. Either way the codec is left
  in the state in which the call left it.
\<close>

theorem payload_sequence_one_call:
  "P \<noteq> [] \<Longrightarrow>
     (\<forall>r s'. codec_decode env (map api_view P) (cstate w) = (Inr r, s') \<longrightarrow>
        decode_bridge_payloads env P w =
          ((None, map (\<lambda>x. bridge_view (returned_payload x)) r),
           \<lparr>calls = calls w @ [PayloadDecode (map api_view P)], cstate = s'\<rparr>))
   \<and> (\<forall>e s'. codec_decode env (map api_view P) (cstate w) = (Inl e, s') \<longrightarrow>
        decode_bridge_payloads env P w =
          ((Some e, P), \<lparr>calls = calls w @ [PayloadDecode (map api_view P)], cstate = s'\<rparr>))
   \<and> (\<forall>r s'. codec_encode env (map api_view P) (cstate w) = (Inr r, s') \<longrightarrow>
        encode_bridge_payloads env P w =
          ((None, map (\<lambda>x. bridge_view (returned_payload x)) r),
           \<lparr>calls = calls w @ [PayloadEncode (map api_view P)], cstate = s'\<rparr>))
   \<and> (\<forall>e s'. codec_encode env (map api_view P) (cstate w) = (Inl e, s') \<longrightarrow>
        encode_bridge_payloads env P w =
          ((Some e, P), \<lparr>calls = calls w @ [PayloadEncode (map api_view P)], cstate = s'\<rparr>))"
  by (simp add: decode_bridge_payloads_def encode_bridge_payloads_def
        apply_to_bridge_payloads_nonempty decode_cb_def encode_cb_def)

theorem payload_sequence_one_call_witness:
  "[sample_payload 1, sample_payload 2] \<noteq> []
   \<and> decode_bridge_payloads marking_env [sample_payload 1, sample_payload 2] start_world
      = ((None, [\<lparr>bridge_metadata = [''encoding'' \<mapsto> [1]], bridge_data = [1, 1, 1]\<rparr>,
                 \<lparr>bridge_metadata = [''encoding'' \<mapsto> [2]], bridge_data = [1, 2, 2]\<rparr>]),
         \<lparr>calls = [PayloadDecode [\<lparr>api_metadata = [''encoding'' \<mapsto> [1]], api_data = [1, 1]\<rparr>,
                                   \<lparr>api_metadata = [''encoding'' \<mapsto> [2]], api_data = [2, 2]\<rparr>]],
          cstate = 1\<rparr>)
   \<and> encode_bridge_payloads marking_env [sample_payload 1, sample_payload 2] start_world
      = ((None, [\<lparr>bridge_metadata = [''encoding'' \<mapsto> [1]], bridge_data = [2, 1, 1]\<rparr>,
                 \<lparr>bridge_metadata = [''encoding'' \<mapsto> [2]], bridge_data = [2, 2, 2]\<rparr>]),
         \<lparr>calls = [PayloadEncode [\<lparr>api_metadata = [''encoding'' \<mapsto> [1]], api_data = [1, 1]\<rparr>,
                                   \<lparr>api_metadata = [''encoding'' \<mapsto> [2]], api_data = [2, 2]\<rparr>]],
          cstate = 1\<rparr>)
   \<and> decode_bridge_payloads raising_env [sample_payload 1, sample_payload 2] start_world
      = ((Some (Raised ''codec failed''), [sample_payload 1, sample_payload 2]),
         \<lparr>calls = [PayloadDecode [\<lparr>api_metadata = [''encoding'' \<mapsto> [1]], api_data = [1, 1]\<rparr>,
                                   \<lparr>api_metadata = [''encoding'' \<mapsto> [2]], api_data = [2, 2]\<rparr>]],
          cstate = 1\<rparr>)
   \<and> encode_bridge_payloads raising_env [sample_payload 1, sample_payload 2] start_world
      = ((Some (Raised ''codec failed''), [sample_payload 1, sample_payload 2]),
         \<lparr>calls = [PayloadEncode [\<lparr>api_metadata = [''encoding'' \<mapsto> [1]], api_data = [1, 1]\<rparr>,
                                   \<lparr>api_metadata = [''encoding'' \<mapsto> [2]], api_data = [2, 2]\<rparr>]],
          cstate = 1\<rparr>)"
  using payload_sequence_one_call
          [of "[sample_payload 1, sample_payload 2]" marking_env start_world]
        payload_sequence_one_call
          [of "[sample_payload 1, sample_payload 2]" raising_env start_world]
  by (simp add: marking_env_def raising_env_def start_world_def sample_payload_def
        api_view_def bridge_view_def fresh_def mark_def)

section \<open>Elements the traversal passes over\<close>

lemma for_each_skip:
  assumes "\<And>w. u a w = ((None, a), w)"
  shows "for_each u (pre @ a # post) w =
           rebuild (\<lambda>xs. take (length pre) xs @ a # drop (length pre) xs)
             (for_each u (pre @ post) w)"
proof (induction pre arbitrary: w)
  case Nil
  show ?case by (simp add: assms and_then_def rebuild_def split: prod.splits)
next
  case (Cons p pre)
  show ?case
    by (simp add: Cons.IH and_then_def rebuild_def split: prod.splits option.splits)
qed

lemma decode_job_completed_without_result:
  "decode_job env (ResolveActivity (Completed None) x) w =
     ((None, ResolveActivity (Completed None) x), w)"
  by (simp add: rebuild_def if_present_def)

lemma decode_activation_skip:
  assumes "\<And>w. decode_job env j w = ((None, j), w)"
  shows "decode_activation env (Activation (pre @ j # post) y) w =
           rebuild (\<lambda>act. Activation (take (length pre) (jobs act) @ j
                                       # drop (length pre) (jobs act)) y)
             (decode_activation env (Activation (pre @ post) y) w)"
  using for_each_skip[of "decode_job env" j pre post w] assms
  by (simp add: decode_activation_def rebuild_def split: prod.splits)

text \<open>
  C7. Decoding or encoding an empty payload sequence makes no call and changes nothing
  (the state of the pass, with its list of calls, is returned as it was). A resolve-activity
  job that is completed with no result is left as it is and no call is made for it; in an
  activation, with any jobs before and after it, the pass is the pass over the other jobs
  with this job put back in its place.
\<close>

theorem empty_or_absent_payload_no_call:
  "decode_bridge_payloads env [] w = ((None, []), w)
   \<and> encode_bridge_payloads env [] w = ((None, []), w)
   \<and> decode_job env (ResolveActivity (Completed None) x) w =
       ((None, ResolveActivity (Completed None) x), w)
   \<and> decode_activation env
         (Activation (pre @ ResolveActivity (Completed None) x # post) y) w =
       rebuild (\<lambda>act. Activation (take (length pre) (jobs act)
                                   @ ResolveActivity (Completed None) x
                                   # drop (length pre) (jobs act)) y)
         (decode_activation env (Activation (pre @ post) y) w)"
proof (intro conjI)
  show "decode_bridge_payloads env [] w = ((None, []), w)"
    by (simp add: decode_bridge_payloads_def apply_to_bridge_payloads_empty)
  show "encode_bridge_payloads env [] w = ((None, []), w)"
    by (simp add: encode_bridge_payloads_def apply_to_bridge_payloads_empty)
  show "decode_job env (ResolveActivity (Completed None) x) w =
          ((None, ResolveActivity (Completed None) x), w)"
    by (rule decode_job_completed_without_result)
  show "decode_activation env
          (Activation (pre @ ResolveActivity (Completed None) x # post) y) w =
        rebuild (\<lambda>act. Activation (take (length pre) (jobs act)
                                    @ ResolveActivity (Completed None) x
                                    # drop (length pre) (jobs act)) y)
          (decode_activation env (Activation (pre @ post) y) w)"
    by (rule decode_activation_skip) (rule decode_job_completed_without_result)
qed

text \<open>
  C9. A job whose variant is none of the nine the decoder tests for, a command whose
  variant is none of the eight the encoder tests for, and a completion that is neither
  failed nor successful: the traversal returns the element as it is, raises nothing and
  leaves the state of the pass (with its list of calls) as it was. In a list of jobs or
  commands the pass is the pass over the other elements, with this one put back in its
  place.
\<close>

theorem unrecognized_variant_untouched:
  "decode_job env (OtherJob x) w = ((None, OtherJob x), w)
   \<and> decode_activation env (Activation (pre @ OtherJob x # post) y) w =
       rebuild (\<lambda>act. Activation (take (length pre) (jobs act) @ OtherJob x
                                   # drop (length pre) (jobs act)) y)
         (decode_activation env (Activation (pre @ post) y) w)
   \<and> encode_command env (OtherCommand x) w = ((None, OtherCommand x), w)
   \<and> fst (encode_completion env (Completion (Successful (cpre @ OtherCommand x # cpost)) y) w) =
       (case for_each (encode_command env) (cpre @ cpost) w of
          ((e, cs), w') \<Rightarrow>
            (e, Completion (Successful (take (length cpre) cs @ OtherCommand x
                                         # drop (length cpre) cs)) y))
   \<and> snd (encode_completion env (Completion (Successful (cpre @ OtherCommand x # cpost)) y) w) =
       snd (encode_completion env (Completion (Successful (cpre @ cpost)) y) w)
   \<and> encode_completion env (Completion OtherStatus y) w = ((None, Completion OtherStatus y), w)"
  using for_each_skip[of "encode_command env" "OtherCommand x" cpre cpost w]
        decode_activation_skip[of env "OtherJob x" pre post y w]
  by (simp add: encode_completion_def rebuild_def split: prod.splits)

section \<open>Passes that raise nothing\<close>

lemma error_rebuild: "fst (fst (rebuild k r)) = fst (fst r)"
  by (simp add: rebuild_def split: prod.splits)

lemma error_and_then:
  assumes "fst (fst r) = None" and "\<And>x w'. fst (fst (rest x w')) = None"
  shows "fst (fst (and_then r k rest)) = None"
  using assms by (auto simp add: and_then_def split: prod.splits option.splits)

lemma error_if_present:
  assumes "\<And>x. fst (fst (u x w)) = None"
  shows "fst (fst (if_present u field w)) = None"
  using assms by (cases field) (simp_all add: if_present_def error_rebuild)

lemma error_for_each:
  assumes "\<And>x w. fst (fst (u x w)) = None"
  shows "fst (fst (for_each u xs w)) = None"
proof (induction xs arbitrary: w)
  case Nil
  show ?case by simp
next
  case (Cons x xs)
  show ?case
    by (simp, rule error_and_then) (simp_all add: assms error_rebuild Cons.IH)
qed

lemma error_for_each_value:
  assumes "\<And>x w. fst (fst (u x w)) = None"
  shows "fst (fst (for_each_value u m w)) = None"
  unfolding for_each_value_def
  by (rule error_for_each) (simp add: split_def error_rebuild assms)

lemma error_apply_to_bridge_payloads:
  assumes "\<And>ps w. ps \<noteq> [] \<Longrightarrow> \<exists>r w'. cb ps w = (Inr r, w')"
  shows "fst (fst (apply_to_bridge_payloads cb payloads w)) = None"
proof (cases "payloads = []")
  case True
  then show ?thesis by (simp add: apply_to_bridge_payloads_def)
next
  case False
  then have "map api_view payloads \<noteq> []" by simp
  from assms[OF this, of w] False show ?thesis
    by (auto simp add: apply_to_bridge_payloads_nonempty)
qed

lemma error_apply_to_bridge_payload:
  assumes "\<And>ps w. ps \<noteq> [] \<Longrightarrow> \<exists>r w'. cb ps w = (Inr r, w') \<and> r \<noteq> []"
  shows "fst (fst (apply_to_bridge_payload cb payload w)) = None"
  using assms[of "[api_view payload]" w]
  by (auto simp add: apply_to_bridge_payload_eq split: list.splits)

lemma decode_cb_returns:
  assumes "\<And>ps s. ps \<noteq> [] \<Longrightarrow> \<exists>r s'. codec_decode env ps s = (Inr r, s') \<and> r \<noteq> []"
  shows "ps \<noteq> [] \<Longrightarrow> \<exists>r w'. decode_cb env ps w = (Inr r, w') \<and> r \<noteq> []"
  using assms[of ps "cstate w"] by (auto simp add: decode_cb_def)

lemma encode_cb_returns:
  assumes "\<And>ps s. ps \<noteq> [] \<Longrightarrow> \<exists>r s'. codec_encode env ps s = (Inr r, s') \<and> r \<noteq> []"
  shows "ps \<noteq> [] \<Longrightarrow> \<exists>r w'. encode_cb env ps w = (Inr r, w') \<and> r \<noteq> []"
  using assms[of ps "cstate w"] by (auto simp add: encode_cb_def)

lemma error_decode_memo_value:
  assumes "\<And>ps s. ps \<noteq> [] \<Longrightarrow> \<exists>r s'. codec_decode env ps s = (Inr r, s') \<and> r \<noteq> []"
  shows "fst (fst (decode_memo_value env val w)) = None"
  using decode_cb_returns[OF assms, of "[val]" w]
  by (auto simp add: decode_memo_value_eq split: list.splits)

lemma error_decode_failure:
  assumes "\<And>f s. fst (fst (failure_decode env f s)) = None"
  shows "fst (fst (decode_failure env f w)) = None"
  using assms[of f "cstate w"] by (auto simp add: decode_failure_def split: prod.splits)

lemma error_encode_failure:
  assumes "\<And>f s. fst (fst (failure_encode env f s)) = None"
  shows "fst (fst (encode_failure env f w)) = None"
  using assms[of f "cstate w"] by (auto simp add: encode_failure_def split: prod.splits)

lemma error_decode_job:
  assumes d: "\<And>ps s. ps \<noteq> [] \<Longrightarrow> \<exists>r s'. codec_decode env ps s = (Inr r, s') \<and> r \<noteq> []"
    and f: "\<And>f s. fst (fst (failure_decode env f s)) = None"
  shows "fst (fst (decode_job env j w)) = None"
proof -
  have ps: "\<And>P w. fst (fst (decode_bridge_payloads env P w)) = None"
    unfolding decode_bridge_payloads_def
    by (rule error_apply_to_bridge_payloads) (use decode_cb_returns[OF d] in blast)
  have p: "\<And>p w. fst (fst (decode_bridge_payload env p w)) = None"
    unfolding decode_bridge_payload_def
    by (rule error_apply_to_bridge_payload) (use decode_cb_returns[OF d] in blast)
  have fl: "\<And>x w. fst (fst (decode_failure env x w)) = None"
    by (rule error_decode_failure) (rule f)
  have m: "\<And>v w. fst (fst (decode_memo_value env v w)) = None"
    by (rule error_decode_memo_value) (rule d)
  show ?thesis
  proof (cases j)
    case (ResolveActivity r x)
    then show ?thesis by (cases r) (simp_all add: error_rebuild error_if_present p fl)
  next
    case (ResolveChildWorkflowExecution r x)
    then show ?thesis
    proof (cases r)
      case (Completed opt)
      with ResolveChildWorkflowExecution show ?thesis
        by (cases opt) (simp_all add: error_rebuild p)
    qed (simp_all add: error_rebuild fl)
  next
    case (ResolveChildWorkflowExecutionStart st x)
    then show ?thesis by (cases st) (simp_all add: error_rebuild fl)
  next
    case (StartWorkflow arguments cf memo x)
    then show ?thesis
      by (simp, intro error_and_then)
         (simp_all add: ps error_if_present fl error_rebuild error_for_each_value m)
  qed (simp_all add: error_rebuild error_if_present ps fl)
qed

lemma error_encode_command:
  assumes d: "\<And>ps s. ps \<noteq> [] \<Longrightarrow> \<exists>r s'. codec_encode env ps s = (Inr r, s') \<and> r \<noteq> []"
    and f: "\<And>f s. fst (fst (failure_encode env f s)) = None"
  shows "fst (fst (encode_command env c w)) = None"
proof -
  have ps: "\<And>P w. fst (fst (encode_bridge_payloads env P w)) = None"
    unfolding encode_bridge_payloads_def
    by (rule error_apply_to_bridge_payloads) (use encode_cb_returns[OF d] in blast)
  have p: "\<And>p w. fst (fst (encode_bridge_payload env p w)) = None"
    unfolding encode_bridge_payload_def
    by (rule error_apply_to_bridge_payload) (use encode_cb_returns[OF d] in blast)
  have fl: "\<And>x w. fst (fst (encode_failure env x w)) = None"
    by (rule error_encode_failure) (rule f)
  show ?thesis
  proof (cases c)
    case (RespondToQuery r x)
    then show ?thesis
    proof (cases r)
      case (QuerySucceeded opt)
      with RespondToQuery show ?thesis
        by (cases opt) (simp_all add: error_rebuild p)
    qed (simp_all add: error_rebuild fl)
  next
    case (ContinueAsNewWorkflowExecution arguments memo x)
    then show ?thesis
      by (simp, intro error_and_then) (simp_all add: ps error_rebuild error_for_each_value p)
  next
    case (StartChildWorkflowExecution input memo x)
    then show ?thesis
      by (simp, intro error_and_then) (simp_all add: ps error_rebuild error_for_each_value p)
  qed (simp_all add: error_rebuild error_if_present ps p fl)
qed

lemma error_decode_activation:
  assumes "\<And>ps s. ps \<noteq> [] \<Longrightarrow> \<exists>r s'. codec_decode env ps s = (Inr r, s') \<and> r \<noteq> []"
    and "\<And>f s. fst (fst (failure_decode env f s)) = None"
  shows "fst (fst (decode_activation env act w)) = None"
  by (simp add: decode_activation_def error_rebuild error_for_each error_decode_job[OF assms])

lemma error_encode_completion:
  assumes "\<And>ps s. ps \<noteq> [] \<Longrightarrow> \<exists>r s'. codec_encode env ps s = (Inr r, s') \<and> r \<noteq> []"
    and "\<And>f s. fst (fst (failure_encode env f s)) = None"
  shows "fst (fst (encode_completion env c w)) = None"
  by (cases "status c")
     (simp_all add: encode_completion_def error_rebuild error_for_each
        error_encode_command[OF assms] error_encode_failure[OF assms(2)])

section \<open>The order of the calls\<close>

lemma traced_skip: "traced env ((None, x), w) w []"
  by (simp add: traced_def state_after_calls_def)

lemma traced_rebuild: "traced env (rebuild k r) w cs = traced env r w cs"
  by (simp add: traced_def rebuild_def split: prod.splits)

lemma traced_and_then:
  assumes "traced env r w cs1" and "\<And>x w'. traced env (rest x w') w' cs2"
  shows "traced env (and_then r k rest) w (cs1 @ cs2)"
proof -
  obtain e x w1 where r: "r = ((e, x), w1)" by (metis surj_pair)
  from assms(1) r obtain k1 where
    k1: "calls w1 = calls w @ k1" "prefix k1 cs1" "e = None \<longrightarrow> k1 = cs1"
        "cstate w1 = state_after_calls env (cstate w) k1"
    by (auto simp: traced_def)
  show ?thesis
  proof (cases e)
    case (Some err)
    with r k1 show ?thesis
      by (auto simp: traced_def and_then_def intro: prefix_prefix)
  next
    case None
    from assms(2)[of x w1] obtain k2 where
      k2: "calls (snd (rest x w1)) = calls w1 @ k2" "prefix k2 cs2"
          "fst (fst (rest x w1)) = None \<longrightarrow> k2 = cs2"
          "cstate (snd (rest x w1)) = state_after_calls env (cstate w1) k2"
      by (auto simp: traced_def)
    have a: "calls (snd (rest x w1)) = calls w @ (cs1 @ k2)"
      using None k1 k2 by simp
    have b: "prefix (cs1 @ k2) (cs1 @ cs2)"
      using k2 by simp
    have c: "cstate (snd (rest x w1)) = state_after_calls env (cstate w) (cs1 @ k2)"
      using None k1 k2 by (simp add: state_after_calls_def)
    have d: "fst (fst (rest x w1)) = None \<longrightarrow> cs1 @ k2 = cs1 @ cs2"
      using k2 by simp
    have "traced env (rest x w1) w (cs1 @ cs2)"
      unfolding traced_def
    proof (rule exI[where x = "cs1 @ k2"])
      show "calls (snd (rest x w1)) = calls w @ cs1 @ k2 \<and>
            prefix (cs1 @ k2) (cs1 @ cs2) \<and>
            (fst (fst (rest x w1)) = None \<longrightarrow> cs1 @ k2 = cs1 @ cs2) \<and>
            cstate (snd (rest x w1)) = state_after_calls env (cstate w) (cs1 @ k2)"
        using a b c d by simp
    qed
    with None r show ?thesis by (simp add: and_then_def)
  qed
qed

lemma traced_if_present:
  assumes "\<And>x. traced env (u x w) w [c x]"
  shows "traced env (if_present u field w) w (case field of None \<Rightarrow> [] | Some x \<Rightarrow> [c x])"
  using assms by (cases field) (simp_all add: if_present_def traced_skip traced_rebuild)

lemma traced_for_each:
  assumes "\<And>x w. traced env (u x w) w (c x)"
  shows "traced env (for_each u xs w) w (concat (map c xs))"
proof (induction xs arbitrary: w)
  case Nil
  show ?case by (simp add: traced_skip)
next
  case (Cons x xs)
  have "traced env (and_then (u x w) (\<lambda>x'. x' # xs)
       (\<lambda>x' w'. rebuild (\<lambda>xs'. x' # xs') (for_each u xs w'))) w (c x @ concat (map c xs))"
    by (rule traced_and_then) (simp_all add: assms traced_rebuild Cons.IH)
  then show ?case by simp
qed

lemma traced_for_each_value:
  assumes "\<And>x w. traced env (u x w) w [c x]"
  shows "traced env (for_each_value u m w) w (map (\<lambda>(k, val). c val) m)"
proof -
  have "traced env (for_each (\<lambda>(k, val) w. rebuild (\<lambda>val'. (k, val')) (u val w)) m w) w
          (concat (map (\<lambda>(k, val). [c val]) m))"
    by (rule traced_for_each) (simp add: split_def traced_rebuild assms)
  moreover have "concat (map (\<lambda>(k, val). [c val]) m) = map (\<lambda>(k, val). c val) m"
    by (induction m) auto
  ultimately show ?thesis by (simp add: for_each_value_def)
qed

lemma traced_decode_failure: "traced env (decode_failure env f w) w [FailureDecode f]"
  by (simp add: traced_def decode_failure_def state_after_calls_def state_after_call_def
        split: prod.splits)

lemma traced_encode_failure: "traced env (encode_failure env f w) w [FailureEncode f]"
  by (simp add: traced_def encode_failure_def state_after_calls_def state_after_call_def
        split: prod.splits)

lemma traced_decode_bridge_payloads:
  "traced env (decode_bridge_payloads env ps w) w (payload_seq_calls PayloadDecode ps)"
  by (simp add: traced_def decode_bridge_payloads_def apply_to_bridge_payloads_def decode_cb_def
        payload_seq_calls_def from_bridge_payloads_def api_view_eq
        state_after_calls_def state_after_call_def split: prod.splits sum.splits)

lemma traced_encode_bridge_payloads:
  "traced env (encode_bridge_payloads env ps w) w (payload_seq_calls PayloadEncode ps)"
  by (simp add: traced_def encode_bridge_payloads_def apply_to_bridge_payloads_def encode_cb_def
        payload_seq_calls_def from_bridge_payloads_def api_view_eq
        state_after_calls_def state_after_call_def split: prod.splits sum.splits)

lemma traced_decode_bridge_payload:
  "traced env (decode_bridge_payload env p w) w [PayloadDecode [api_view p]]"
  by (simp add: traced_def decode_bridge_payload_def apply_to_bridge_payload_def decode_cb_def
        api_view_eq state_after_calls_def state_after_call_def
        split: prod.splits sum.splits list.splits)

lemma traced_encode_bridge_payload:
  "traced env (encode_bridge_payload env p w) w [PayloadEncode [api_view p]]"
  by (simp add: traced_def encode_bridge_payload_def apply_to_bridge_payload_def encode_cb_def
        api_view_eq state_after_calls_def state_after_call_def
        split: prod.splits sum.splits list.splits)

lemma traced_decode_memo_value:
  "traced env (decode_memo_value env v w) w [PayloadDecode [v]]"
  by (simp add: traced_def decode_memo_value_def decode_cb_def Let_def
        state_after_calls_def state_after_call_def
        split: prod.splits sum.splits list.splits)

lemma traced_decode_activity_result:
  "traced env (decode_activity_result env r w) w (spec_resolution_calls r)"
  using traced_if_present
          [of env "decode_bridge_payload env" w "\<lambda>p. PayloadDecode [api_view p]"]
  by (cases r) (simp_all add: traced_rebuild traced_decode_failure traced_skip
      traced_decode_bridge_payload payload_opt_calls_def)

lemma traced_decode_child_result:
  "traced env (decode_child_result env r w) w (spec_resolution_calls r)"
proof (cases r)
  case (Completed p)
  then show ?thesis
    by (cases p)
       (simp_all add: traced_rebuild traced_skip traced_decode_bridge_payload
          payload_opt_calls_def)
qed (simp_all add: traced_rebuild traced_decode_failure traced_skip)

lemma traced_decode_failure_opt:
  "traced env (if_present (decode_failure env) f w) w (failure_opt_calls FailureDecode f)"
  unfolding failure_opt_calls_def by (rule traced_if_present) (rule traced_decode_failure)

lemma traced_decode_job: "traced env (decode_job env j w) w (spec_job_calls j)"
proof (cases j)
  case (ResolveChildWorkflowExecutionStart st x)
  then show ?thesis
    by (cases st) (simp_all add: traced_rebuild traced_decode_failure traced_skip)
next
  case (StartWorkflow arguments cf memo x)
  have "traced env (decode_job env (StartWorkflow arguments cf memo x) w) w
     (payload_seq_calls PayloadDecode arguments
       @ (failure_opt_calls FailureDecode cf @ map (\<lambda>(k, val). PayloadDecode [val]) memo))"
    unfolding decode_job.simps
    by (intro traced_and_then traced_decode_bridge_payloads traced_decode_failure_opt)
       (simp add: traced_rebuild traced_for_each_value traced_decode_memo_value)
  with StartWorkflow show ?thesis by simp
qed (simp_all add: traced_rebuild traced_skip traced_decode_bridge_payloads
       traced_decode_activity_result traced_decode_child_result traced_decode_failure_opt)

lemma traced_decode_activation:
  "traced env (decode_activation env act w) w (spec_activation_calls act)"
  by (simp add: decode_activation_def spec_activation_calls_def traced_rebuild
        traced_for_each traced_decode_job)

lemma traced_encode_query_result:
  "traced env (encode_query_result env r w) w (spec_command_calls (RespondToQuery r x))"
proof (cases r)
  case (QuerySucceeded p)
  then show ?thesis
    by (cases p)
       (simp_all add: traced_rebuild traced_skip traced_encode_bridge_payload
          payload_opt_calls_def)
qed (simp_all add: traced_rebuild traced_encode_failure traced_skip)

lemma traced_encode_command: "traced env (encode_command env c w) w (spec_command_calls c)"
proof (cases c)
  case (CompleteWorkflowExecution result x)
  then show ?thesis
    using traced_if_present
            [of env "encode_bridge_payload env" w "\<lambda>p. PayloadEncode [api_view p]"
                result]
    by (simp add: traced_rebuild traced_encode_bridge_payload payload_opt_calls_def)
next
  case (ContinueAsNewWorkflowExecution arguments memo x)
  have "traced env (encode_command env (ContinueAsNewWorkflowExecution arguments memo x) w) w
     (payload_seq_calls PayloadEncode arguments
       @ map (\<lambda>(k, val). PayloadEncode [api_view val]) memo)"
    unfolding encode_command.simps
    by (intro traced_and_then traced_encode_bridge_payloads)
       (simp add: traced_rebuild traced_for_each_value traced_encode_bridge_payload)
  with ContinueAsNewWorkflowExecution show ?thesis by simp
next
  case (StartChildWorkflowExecution input memo x)
  have "traced env (encode_command env (StartChildWorkflowExecution input memo x) w) w
     (payload_seq_calls PayloadEncode input
       @ map (\<lambda>(k, val). PayloadEncode [api_view val]) memo)"
    unfolding encode_command.simps
    by (intro traced_and_then traced_encode_bridge_payloads)
       (simp add: traced_rebuild traced_for_each_value traced_encode_bridge_payload)
  with StartChildWorkflowExecution show ?thesis by simp
next
  case (RespondToQuery r x)
  then show ?thesis by (simp add: traced_rebuild traced_encode_query_result)
qed (simp_all add: traced_rebuild traced_skip traced_encode_bridge_payloads
       traced_encode_failure)

lemma traced_encode_completion:
  "traced env (encode_completion env c w) w (spec_completion_calls c)"
  by (cases "status c")
     (simp_all add: encode_completion_def spec_completion_calls_def traced_rebuild
        traced_for_each traced_encode_command traced_encode_failure traced_skip)

text \<open>
  C5. The calls a pass makes are, in this order, the calls the specification's tables ask
  for: job by job (command by command) in list order, and within a variant in the order of
  its table row, every call with the arguments the message held before the pass. A pass
  that raises has made an initial part of that list and nothing else; a pass that returns
  has made all of it. The calls are made one after the other: each call starts in the
  state in which the call before it has left the codec, and the state after the pass is
  the state the last call has left, so a call has returned before the next one is made.
\<close>

theorem calls_follow_table_order:
  "(\<exists>k. calls (snd (decode_activation env act w)) = calls w @ k
        \<and> prefix k (spec_activation_calls act)
        \<and> (fst (fst (decode_activation env act w)) = None \<longrightarrow> k = spec_activation_calls act)
        \<and> cstate (snd (decode_activation env act w)) = state_after_calls env (cstate w) k)
   \<and> (\<exists>k. calls (snd (encode_completion env completion w)) = calls w @ k
        \<and> prefix k (spec_completion_calls completion)
        \<and> (fst (fst (encode_completion env completion w)) = None
             \<longrightarrow> k = spec_completion_calls completion)
        \<and> cstate (snd (encode_completion env completion w))
            = state_after_calls env (cstate w) k)"
  using traced_decode_activation[of env act w] traced_encode_completion[of env completion w]
  by (simp add: traced_def)

theorem calls_follow_table_order_witness:
  "fst (fst (decode_activation marking_env sample_activation start_world)) = None
   \<and> snd (decode_activation marking_env sample_activation start_world)
       = \<lparr>calls = [PayloadDecode [api_view (sample_payload 1), api_view (sample_payload 2),
                                  api_view (sample_payload 3)],
                   FailureDecode ''failure'',
                   PayloadDecode [api_view (sample_payload 4)]],
          cstate = 3\<rparr>
   \<and> fst (fst (encode_completion marking_env sample_completion start_world)) = None
   \<and> snd (encode_completion marking_env sample_completion start_world)
       = \<lparr>calls = [PayloadEncode [api_view (sample_payload 1), api_view (sample_payload 2)],
                   PayloadEncode [api_view (sample_payload 3)],
                   PayloadEncode [api_view (sample_payload 4)]],
          cstate = 3\<rparr>"
proof -
  have d: "fst (fst (decode_activation marking_env sample_activation start_world)) = None"
    by (rule error_decode_activation) (auto simp add: marking_env_def)
  have e: "fst (fst (encode_completion marking_env sample_completion start_world)) = None"
    by (rule error_encode_completion) (auto simp add: marking_env_def)
  have cw: "calls start_world = []" "cstate start_world = 0"
    by (simp_all add: start_world_def)
  have sd: "spec_activation_calls sample_activation
       = [PayloadDecode [api_view (sample_payload 1), api_view (sample_payload 2),
                         api_view (sample_payload 3)],
          FailureDecode ''failure'',
          PayloadDecode [api_view (sample_payload 4)]]"
    by (simp add: spec_activation_calls_def sample_activation_def payload_seq_calls_def
          failure_opt_calls_def api_view_eq)
  have se: "spec_completion_calls sample_completion
       = [PayloadEncode [api_view (sample_payload 1), api_view (sample_payload 2)],
          PayloadEncode [api_view (sample_payload 3)],
          PayloadEncode [api_view (sample_payload 4)]]"
    by (simp add: spec_completion_calls_def sample_completion_def payload_seq_calls_def
          payload_opt_calls_def)
  have st: "state_after_calls marking_env 0 [c1, c2, c3] = 3" for c1 c2 c3 :: "string call"
    by (simp add: state_after_calls_def state_after_call_def marking_env_def split: call.splits)
  have eq: "w = \<lparr>calls = cs, cstate = n\<rparr>" if "calls w = cs" "cstate w = n"
    for w :: "(string, nat) world" and cs n
    using that by (cases w) simp
  from calls_follow_table_order
         [of marking_env sample_activation start_world sample_completion]
  have "calls (snd (decode_activation marking_env sample_activation start_world))
          = spec_activation_calls sample_activation
      \<and> cstate (snd (decode_activation marking_env sample_activation start_world)) = 3
      \<and> calls (snd (encode_completion marking_env sample_completion start_world))
          = spec_completion_calls sample_completion
      \<and> cstate (snd (encode_completion marking_env sample_completion start_world)) = 3"
    by (auto simp add: d e cw sd se st)
  then show ?thesis
    by (simp add: d e sd se eq)
qed

section \<open>No check of the number of payloads a codec returns\<close>

text \<open>
  C1 (as stated, refuted). The codec of \<open>dropping_env\<close> returns one payload for the two it
  is given. The pass raises nothing, the signal's field is left with one payload, and the
  pass goes on to the next job and changes that too.
\<close>

theorem count_mismatch_counterexample:
  "codec_decode dropping_env (from_bridge_payloads [sample_payload 1, sample_payload 2]) 0
     = (Inr [fresh (from_bridge_payload (sample_payload 2))], 1)
   \<and> decode_activation dropping_env
       (Activation [SignalWorkflow [sample_payload 1, sample_payload 2] ''signal'',
                    QueryWorkflow [sample_payload 3, sample_payload 4] ''query''] ''run-1'')
       start_world
     = ((None,
         Activation [SignalWorkflow [sample_payload 2] ''signal'',
                     QueryWorkflow [sample_payload 4] ''query''] ''run-1''),
        \<lparr>calls = [PayloadDecode (from_bridge_payloads [sample_payload 1, sample_payload 2]),
                  PayloadDecode (from_bridge_payloads [sample_payload 3, sample_payload 4])],
         cstate = 2\<rparr>)"
  by (simp add: dropping_env_def start_world_def decode_activation_def rebuild_def and_then_def
      decode_bridge_payloads_def apply_to_bridge_payloads_def decode_cb_def
      from_bridge_payloads_def to_bridge_payloads_def fresh_def)

text \<open>
  C1 (amended). Nowhere does the engine compare the length of a codec's result with the
  length of its argument. On the batched path, whatever list the callback returns for a
  non-empty field becomes the field's contents, and no error is raised. On the one-element
  paths (an optional payload field or a memo value of a command, and a memo value of a
  start-workflow job) the first payload of the result is taken and any further ones are
  ignored, without error; an empty result raises IndexError and leaves the payload as it
  was. A memo value of a start-workflow job takes the metadata and data of the first
  payload when that is an object of the codec's own, and is left with empty metadata when
  the codec handed the value itself back. So with a codec that returns, for every non-empty
  argument, a non-empty list of whatever length, and a failure codec that does not raise,
  a pass over any activation or completion raises nothing and goes through the whole
  message: it makes every call the tables ask for.
\<close>

theorem codec_result_length_unchecked:
  "(payloads \<noteq> [] \<and> cb (map api_view payloads) w = (Inr result, w') \<longrightarrow>
      apply_to_bridge_payloads cb payloads w =
        ((None, map (\<lambda>x. bridge_view (returned_payload x)) result), w'))
   \<and> (cb [api_view payload] w = (Inr (new_payload # extra), w') \<longrightarrow>
      apply_to_bridge_payload cb payload w =
        ((None, bridge_view (returned_payload new_payload)), w'))
   \<and> (cb [api_view payload] w = (Inr [], w') \<longrightarrow>
      apply_to_bridge_payload cb payload w = ((Some IndexError, payload), w'))
   \<and> (decode_cb env [val] w = (Inr (new_payload # extra), w') \<longrightarrow>
      decode_memo_value env val w =
        ((None,
          if is_argument new_payload
          then \<lparr>api_metadata = Map.empty, api_data = api_data (returned_payload new_payload)\<rparr>
          else returned_payload new_payload), w'))
   \<and> (decode_cb env [val] w = (Inr [], w') \<longrightarrow>
      decode_memo_value env val w = ((Some IndexError, val), w'))
   \<and> ((\<forall>ps s. ps \<noteq> [] \<longrightarrow> (\<exists>r s'. codec_decode env ps s = (Inr r, s') \<and> r \<noteq> []))
        \<and> (\<forall>f s. fst (fst (failure_decode env f s)) = None) \<longrightarrow>
      fst (fst (decode_activation env act w)) = None
      \<and> calls (snd (decode_activation env act w)) = calls w @ spec_activation_calls act)
   \<and> ((\<forall>ps s. ps \<noteq> [] \<longrightarrow> (\<exists>r s'. codec_encode env ps s = (Inr r, s') \<and> r \<noteq> []))
        \<and> (\<forall>f s. fst (fst (failure_encode env f s)) = None) \<longrightarrow>
      fst (fst (encode_completion env completion w)) = None
      \<and> calls (snd (encode_completion env completion w))
          = calls w @ spec_completion_calls completion)"
proof (intro conjI impI)
  assume "payloads \<noteq> [] \<and> cb (map api_view payloads) w = (Inr result, w')"
  then show "apply_to_bridge_payloads cb payloads w =
               ((None, map (\<lambda>x. bridge_view (returned_payload x)) result), w')"
    by (simp add: apply_to_bridge_payloads_nonempty)
next
  assume "cb [api_view payload] w = (Inr (new_payload # extra), w')"
  then show "apply_to_bridge_payload cb payload w =
               ((None, bridge_view (returned_payload new_payload)), w')"
    by (simp add: apply_to_bridge_payload_eq)
next
  assume "cb [api_view payload] w = (Inr [], w')"
  then show "apply_to_bridge_payload cb payload w = ((Some IndexError, payload), w')"
    by (simp add: apply_to_bridge_payload_eq)
next
  assume "decode_cb env [val] w = (Inr (new_payload # extra), w')"
  then show "decode_memo_value env val w =
        ((None,
          if is_argument new_payload
          then \<lparr>api_metadata = Map.empty, api_data = api_data (returned_payload new_payload)\<rparr>
          else returned_payload new_payload), w')"
    by (simp add: decode_memo_value_eq)
next
  assume "decode_cb env [val] w = (Inr [], w')"
  then show "decode_memo_value env val w = ((Some IndexError, val), w')"
    by (simp add: decode_memo_value_eq)
next
  assume h: "(\<forall>ps s. ps \<noteq> [] \<longrightarrow> (\<exists>r s'. codec_decode env ps s = (Inr r, s') \<and> r \<noteq> []))
        \<and> (\<forall>f s. fst (fst (failure_decode env f s)) = None)"
  then show n: "fst (fst (decode_activation env act w)) = None"
    by (intro error_decode_activation) auto
  from n traced_decode_activation[of env act w]
  show "calls (snd (decode_activation env act w)) = calls w @ spec_activation_calls act"
    by (auto simp add: traced_def)
next
  assume h: "(\<forall>ps s. ps \<noteq> [] \<longrightarrow> (\<exists>r s'. codec_encode env ps s = (Inr r, s') \<and> r \<noteq> []))
        \<and> (\<forall>f s. fst (fst (failure_encode env f s)) = None)"
  then show n: "fst (fst (encode_completion env completion w)) = None"
    by (intro error_encode_completion) auto
  from n traced_encode_completion[of env completion w]
  show "calls (snd (encode_completion env completion w))
          = calls w @ spec_completion_calls completion"
    by (auto simp add: traced_def)
qed

theorem codec_result_length_unchecked_witness:
  "fst (apply_to_bridge_payloads (encode_cb dropping_env)
        [sample_payload 1, sample_payload 2, sample_payload 3] start_world)
     = (None, [sample_payload 2, sample_payload 3])
   \<and> fst (apply_to_bridge_payload (decode_cb doubling_env) (sample_payload 1) start_world)
     = (None, sample_payload 1)
   \<and> fst (apply_to_bridge_payload (decode_cb dropping_env) (sample_payload 1) start_world)
     = (Some IndexError, sample_payload 1)
   \<and> fst (decode_memo_value doubling_env (api_view (sample_payload 1)) start_world)
     = (None, api_view (sample_payload 1))
   \<and> fst (decode_memo_value passthrough_env (api_view (sample_payload 1)) start_world)
     = (None, \<lparr>api_metadata = Map.empty, api_data = [1, 1]\<rparr>)
   \<and> fst (decode_memo_value dropping_env (api_view (sample_payload 1)) start_world)
     = (Some IndexError, api_view (sample_payload 1))
   \<and> fst (fst (decode_activation doubling_env sample_activation start_world)) = None
   \<and> calls (snd (decode_activation doubling_env sample_activation start_world))
     = [PayloadDecode [api_view (sample_payload 1), api_view (sample_payload 2),
                       api_view (sample_payload 3)],
        FailureDecode ''failure'',
        PayloadDecode [api_view (sample_payload 4)]]
   \<and> fst (fst (encode_completion doubling_env sample_completion start_world)) = None
   \<and> calls (snd (encode_completion doubling_env sample_completion start_world))
     = [PayloadEncode [api_view (sample_payload 1), api_view (sample_payload 2)],
        PayloadEncode [api_view (sample_payload 3)],
        PayloadEncode [api_view (sample_payload 4)]]"
proof -
  note t = codec_result_length_unchecked
  have v: "bridge_view (api_view q) = q" for q
    by (simp add: bridge_view_def api_view_def)
  have a: "fst (apply_to_bridge_payloads (encode_cb dropping_env)
        [sample_payload 1, sample_payload 2, sample_payload 3] start_world)
     = (None, [sample_payload 2, sample_payload 3])"
    using t [where payloads = "[sample_payload 1, sample_payload 2, sample_payload 3]"
               and cb = "encode_cb dropping_env" and w = start_world
               and result = "map fresh [api_view (sample_payload 2), api_view (sample_payload 3)]"
               and w' = "snd (encode_cb dropping_env
                   (map api_view [sample_payload 1, sample_payload 2, sample_payload 3])
                   start_world)",
             THEN conjunct1]
    by (simp add: dropping_env_def encode_cb_def fresh_def v)
  have b: "fst (apply_to_bridge_payload (decode_cb doubling_env) (sample_payload 1) start_world)
     = (None, sample_payload 1)"
    using t [where cb = "decode_cb doubling_env" and w = start_world
               and payload = "sample_payload 1"
               and new_payload = "fresh (api_view (sample_payload 1))"
               and extra = "[fresh (api_view (sample_payload 1))]"
               and w' = "snd (decode_cb doubling_env [api_view (sample_payload 1)] start_world)",
             THEN conjunct2, THEN conjunct1]
    by (simp add: doubling_env_def decode_cb_def fresh_def v)
  have c: "fst (apply_to_bridge_payload (decode_cb dropping_env) (sample_payload 1) start_world)
     = (Some IndexError, sample_payload 1)"
    using t [where cb = "decode_cb dropping_env" and w = start_world
               and payload = "sample_payload 1"
               and w' = "snd (decode_cb dropping_env [api_view (sample_payload 1)] start_world)",
             THEN conjunct2, THEN conjunct2, THEN conjunct1]
    by (simp add: dropping_env_def decode_cb_def)
  have d: "fst (decode_memo_value doubling_env (api_view (sample_payload 1)) start_world)
     = (None, api_view (sample_payload 1))"
    using t [where env = doubling_env and w = start_world
               and val = "api_view (sample_payload 1)"
               and new_payload = "fresh (api_view (sample_payload 1))"
               and extra = "[fresh (api_view (sample_payload 1))]"
               and w' = "snd (decode_cb doubling_env [api_view (sample_payload 1)] start_world)",
             THEN conjunct2, THEN conjunct2, THEN conjunct2, THEN conjunct1]
    by (simp add: doubling_env_def decode_cb_def fresh_def)
  have e: "fst (decode_memo_value passthrough_env (api_view (sample_payload 1)) start_world)
     = (None, \<lparr>api_metadata = Map.empty, api_data = [1, 1]\<rparr>)"
    using t [where env = passthrough_env and w = start_world
               and val = "api_view (sample_payload 1)"
               and new_payload = "handed_back (api_view (sample_payload 1))"
               and extra = "[]"
               and w' = "snd (decode_cb passthrough_env [api_view (sample_payload 1)] start_world)",
             THEN conjunct2, THEN conjunct2, THEN conjunct2, THEN conjunct1]
    by (simp add: passthrough_env_def decode_cb_def handed_back_def api_view_def
          sample_payload_def)
  have f: "fst (decode_memo_value dropping_env (api_view (sample_payload 1)) start_world)
     = (Some IndexError, api_view (sample_payload 1))"
    using t [where env = dropping_env and w = start_world
               and val = "api_view (sample_payload 1)"
               and w' = "snd (decode_cb dropping_env [api_view (sample_payload 1)] start_world)",
             THEN conjunct2, THEN conjunct2, THEN conjunct2, THEN conjunct2, THEN conjunct1]
    by (simp add: dropping_env_def decode_cb_def)
  have sd: "spec_activation_calls sample_activation
     = [PayloadDecode [api_view (sample_payload 1), api_view (sample_payload 2),
                       api_view (sample_payload 3)],
        FailureDecode ''failure'',
        PayloadDecode [api_view (sample_payload 4)]]"
    by (simp add: spec_activation_calls_def sample_activation_def payload_seq_calls_def
          failure_opt_calls_def api_view_eq)
  have se: "spec_completion_calls sample_completion
     = [PayloadEncode [api_view (sample_payload 1), api_view (sample_payload 2)],
        PayloadEncode [api_view (sample_payload 3)],
        PayloadEncode [api_view (sample_payload 4)]]"
    by (simp add: spec_completion_calls_def sample_completion_def payload_seq_calls_def
          payload_opt_calls_def)
  have cw: "calls start_world = []"
    by (simp add: start_world_def)
  have g: "fst (fst (decode_activation doubling_env sample_activation start_world)) = None
     \<and> calls (snd (decode_activation doubling_env sample_activation start_world))
         = spec_activation_calls sample_activation"
    using t [where env = doubling_env and act = sample_activation and w = start_world,
             THEN conjunct2, THEN conjunct2, THEN conjunct2, THEN conjunct2, THEN conjunct2, THEN conjunct1]
    by (simp add: doubling_env_def cw)
  have h: "fst (fst (encode_completion doubling_env sample_completion start_world)) = None
     \<and> calls (snd (encode_completion doubling_env sample_completion start_world))
         = spec_completion_calls sample_completion"
    using t [where env = doubling_env and completion = sample_completion and w = start_world,
             THEN conjunct2, THEN conjunct2, THEN conjunct2, THEN conjunct2, THEN conjunct2, THEN conjunct2]
    by (simp add: doubling_env_def cw)
  show ?thesis
    using a b c d e f g h by (simp add: sd se)
qed

section \<open>Scenario A\<close>




section \<open>The traversal keeps the shape and the order of the message\<close>

lemma result_rebuild: "snd (fst (rebuild k r)) = k (snd (fst r))"
  by (simp add: rebuild_def split: prod.splits)

lemma result_and_then:
  "snd (fst (and_then r k rest)) =
     (case fst (fst r) of
        Some e \<Rightarrow> k (snd (fst r))
      | None \<Rightarrow> snd (fst (rest (snd (fst r)) (snd r))))"
  by (simp add: and_then_def split: prod.splits option.splits)

lemma unit_map_eq: "map (\<lambda>_. ()) xs = map (\<lambda>_. ()) ys \<longleftrightarrow> length xs = length ys"
  by (metis length_map map_replicate_const)

lemma result_if_present:
  "map_option (\<lambda>_. ()) (snd (fst (if_present u field w))) = map_option (\<lambda>_. ()) field"
  by (cases field) (simp_all add: if_present_def result_rebuild)

lemma result_for_each:
  assumes "\<And>x w. sh (snd (fst (u x w))) = sh x"
  shows "map sh (snd (fst (for_each u xs w))) = map sh xs"
proof (induction xs arbitrary: w)
  case Nil
  show ?case by simp
next
  case (Cons x xs)
  show ?case
    by (simp add: result_and_then result_rebuild assms Cons.IH split: option.splits)
qed

lemma result_for_each_value:
  "map (map_prod id (\<lambda>_. ())) (snd (fst (for_each_value u m w)))
     = map (map_prod id (\<lambda>_. ())) m"
  unfolding for_each_value_def
  by (rule result_for_each) (auto simp add: result_rebuild)

lemma length_apply_to_bridge_payloads:
  assumes "\<And>ps w r w'. cb ps w = (Inr r, w') \<Longrightarrow> length r = length ps"
  shows "length (snd (fst (apply_to_bridge_payloads cb payloads w))) = length payloads"
  using assms[of "from_bridge_payloads payloads" w]
  by (auto simp add: apply_to_bridge_payloads_def split: prod.splits sum.splits)

lemma length_decode_bridge_payloads:
  assumes "\<And>ps s r s'. codec_decode env ps s = (Inr r, s') \<Longrightarrow> length r = length ps"
  shows "length (snd (fst (decode_bridge_payloads env payloads w))) = length payloads"
  unfolding decode_bridge_payloads_def
  by (rule length_apply_to_bridge_payloads)
     (auto simp: decode_cb_def split: prod.splits dest: assms)

lemma length_encode_bridge_payloads:
  assumes "\<And>ps s r s'. codec_encode env ps s = (Inr r, s') \<Longrightarrow> length r = length ps"
  shows "length (snd (fst (encode_bridge_payloads env payloads w))) = length payloads"
  unfolding encode_bridge_payloads_def
  by (rule length_apply_to_bridge_payloads)
     (auto simp: encode_cb_def split: prod.splits dest: assms)

lemma shape_decode_activity_result:
  "map_resolution (\<lambda>_. ()) (\<lambda>_. ()) id (snd (fst (decode_activity_result env r w)))
     = map_resolution (\<lambda>_. ()) (\<lambda>_. ()) id r"
  by (cases r) (simp_all add: result_rebuild result_if_present)

lemma shape_decode_child_result:
  "map_resolution (\<lambda>_. ()) (\<lambda>_. ()) id (snd (fst (decode_child_result env r w)))
     = map_resolution (\<lambda>_. ()) (\<lambda>_. ()) id r"
proof (cases r)
  case (Completed p)
  then show ?thesis by (cases p) (simp_all add: result_rebuild)
qed (simp_all add: result_rebuild)

lemma shape_decode_child_start:
  "map_start_resolution (\<lambda>_. ()) id (snd (fst (decode_child_start env st w)))
     = map_start_resolution (\<lambda>_. ()) id st"
  by (cases st) (simp_all add: result_rebuild)

lemma shape_decode_job:
  assumes "\<And>ps s r s'. codec_decode env ps s = (Inr r, s') \<Longrightarrow> length r = length ps"
  shows "map_job (\<lambda>_. ()) (\<lambda>_. ()) (\<lambda>_. ()) id (snd (fst (decode_job env j w)))
     = map_job (\<lambda>_. ()) (\<lambda>_. ()) (\<lambda>_. ()) id j"
  by (cases j)
     (simp_all add: result_rebuild result_and_then result_if_present result_for_each_value
        unit_map_eq length_decode_bridge_payloads[OF assms]
        shape_decode_activity_result shape_decode_child_result shape_decode_child_start
        split: option.splits)

lemma shape_decode_activation:
  assumes "\<And>ps s r s'. codec_decode env ps s = (Inr r, s') \<Longrightarrow> length r = length ps"
  shows "shape_of_activation (snd (fst (decode_activation env act w))) = shape_of_activation act"
  by (cases act)
     (simp add: shape_of_activation_def decode_activation_def result_rebuild
        result_for_each[where sh = "map_job (\<lambda>_. ()) (\<lambda>_. ()) (\<lambda>_. ()) id"]
        shape_decode_job[OF assms])

lemma shape_encode_query_result:
  "map_query_result (\<lambda>_. ()) (\<lambda>_. ()) id (snd (fst (encode_query_result env r w)))
     = map_query_result (\<lambda>_. ()) (\<lambda>_. ()) id r"
proof (cases r)
  case (QuerySucceeded p)
  then show ?thesis by (cases p) (simp_all add: result_rebuild)
qed (simp_all add: result_rebuild)

lemma shape_encode_command:
  assumes "\<And>ps s r s'. codec_encode env ps s = (Inr r, s') \<Longrightarrow> length r = length ps"
  shows "map_command (\<lambda>_. ()) (\<lambda>_. ()) id (snd (fst (encode_command env c w)))
     = map_command (\<lambda>_. ()) (\<lambda>_. ()) id c"
  by (cases c)
     (simp_all add: result_rebuild result_and_then result_if_present result_for_each_value
        unit_map_eq length_encode_bridge_payloads[OF assms] shape_encode_query_result
        split: option.splits)

lemma shape_encode_completion:
  assumes "\<And>ps s r s'. codec_encode env ps s = (Inr r, s') \<Longrightarrow> length r = length ps"
  shows "shape_of_completion (snd (fst (encode_completion env c w))) = shape_of_completion c"
proof (cases c)
  case (Completion st x)
  then show ?thesis
    by (cases st)
       (simp_all add: shape_of_completion_def encode_completion_def result_rebuild
          result_for_each[where sh = "map_command (\<lambda>_. ()) (\<lambda>_. ()) id"]
          shape_encode_command[OF assms])
qed

lemma length_for_each: "length (snd (fst (for_each u xs w))) = length xs"
  using result_for_each[of "\<lambda>_. ()" u xs w] by (simp add: unit_map_eq)

lemma fst_rebuild: "fst (rebuild k r) = (fst (fst r), k (snd (fst r)))"
  by (simp add: rebuild_def split: prod.splits)

lemma fst_and_then:
  "fst (and_then r k rest) =
     (case fst (fst r) of
        Some e \<Rightarrow> (Some e, k (snd (fst r)))
      | None \<Rightarrow> fst (rest (snd (fst r)) (snd r)))"
  by (simp add: and_then_def split: prod.splits option.splits)

lemma image_if_present:
  assumes "\<And>x. fst (u x w) = (None, G x)"
  shows "fst (if_present u field w) = (None, map_option G field)"
  by (cases field) (simp_all add: if_present_def fst_rebuild assms)

lemma image_for_each:
  assumes "\<And>x w. fst (u x w) = (None, G x)"
  shows "fst (for_each u xs w) = (None, map G xs)"
proof (induction xs arbitrary: w)
  case Nil
  show ?case by simp
next
  case (Cons x xs)
  show ?case
    by (simp add: fst_and_then fst_rebuild assms Cons.IH)
qed

lemma image_for_each_value:
  assumes "\<And>x w. fst (u x w) = (None, G x)"
  shows "fst (for_each_value u m w) = (None, map (map_prod id G) m)"
proof -
  have "fst (for_each (\<lambda>(k, val) w. rebuild (\<lambda>val'. (k, val')) (u val w)) m w)
          = (None, map (\<lambda>(k, val). (k, G val)) m)"
    by (rule image_for_each) (auto simp add: fst_rebuild assms)
  moreover have "map (\<lambda>(k, val). (k, G val)) m = map (map_prod id G) m"
    by (induction m) auto
  ultimately show ?thesis by (simp add: for_each_value_def)
qed

lemma image_apply_to_bridge_payloads:
  assumes "\<And>ps w. fst (cb ps w) = Inr (map (\<lambda>p. fresh (g p)) ps)"
  shows "fst (apply_to_bridge_payloads cb payloads w)
           = (None, map (\<lambda>q. bridge_view (g (api_view q))) payloads)"
proof (cases "payloads = []")
  case True
  then show ?thesis by (simp add: apply_to_bridge_payloads_def)
next
  case False
  with assms[of "map api_view payloads" w] show ?thesis
    by (auto simp add: apply_to_bridge_payloads_nonempty fresh_def comp_def
          split: prod.splits sum.splits)
qed

lemma image_apply_to_bridge_payload:
  assumes "\<And>ps w. fst (cb ps w) = Inr (map (\<lambda>p. fresh (g p)) ps)"
  shows "fst (apply_to_bridge_payload cb payload w) = (None, bridge_view (g (api_view payload)))"
  using assms[of "[api_view payload]" w]
  by (auto simp add: apply_to_bridge_payload_eq fresh_def split: prod.splits sum.splits list.splits)

lemma decode_cb_positional:
  assumes "\<And>ps s. fst (codec_decode env ps s) = Inr (map (\<lambda>p. fresh (g p)) ps)"
  shows "fst (decode_cb env ps w) = Inr (map (\<lambda>p. fresh (g p)) ps)"
  using assms[of ps "cstate w"] by (auto simp add: decode_cb_def split: prod.splits)

lemma encode_cb_positional:
  assumes "\<And>ps s. fst (codec_encode env ps s) = Inr (map (\<lambda>p. fresh (g p)) ps)"
  shows "fst (encode_cb env ps w) = Inr (map (\<lambda>p. fresh (g p)) ps)"
  using assms[of ps "cstate w"] by (auto simp add: encode_cb_def split: prod.splits)

lemma image_decode_memo_value:
  assumes "\<And>ps s. fst (codec_decode env ps s) = Inr (map (\<lambda>p. fresh (g p)) ps)"
  shows "fst (decode_memo_value env val w) = (None, g val)"
  using decode_cb_positional[OF assms, of "[val]" w]
  by (auto simp add: decode_memo_value_eq fresh_def split: prod.splits sum.splits list.splits)

lemma image_decode_failure:
  assumes "\<And>f s. fst (failure_decode env f s) = (None, h f)"
  shows "fst (decode_failure env f w) = (None, h f)"
  using assms[of f "cstate w"] by (auto simp add: decode_failure_def split: prod.splits)

lemma image_encode_failure:
  assumes "\<And>f s. fst (failure_encode env f s) = (None, h f)"
  shows "fst (encode_failure env f w) = (None, h f)"
  using assms[of f "cstate w"] by (auto simp add: encode_failure_def split: prod.splits)

lemma image_decode_job:
  assumes d: "\<And>ps s. fst (codec_decode env ps s) = Inr (map (\<lambda>p. fresh (g p)) ps)"
    and f: "\<And>f s. fst (failure_decode env f s) = (None, h f)"
  shows "fst (decode_job env j w)
           = (None, map_job (\<lambda>q. bridge_view (g (api_view q))) g h id j)"
proof -
  have ps: "\<And>P w. fst (decode_bridge_payloads env P w)
                    = (None, map (\<lambda>q. bridge_view (g (api_view q))) P)"
    unfolding decode_bridge_payloads_def
    by (rule image_apply_to_bridge_payloads) (rule decode_cb_positional[OF d])
  have p: "\<And>p w. fst (decode_bridge_payload env p w) = (None, bridge_view (g (api_view p)))"
    unfolding decode_bridge_payload_def
    by (rule image_apply_to_bridge_payload) (rule decode_cb_positional[OF d])
  have fl: "\<And>x w. fst (decode_failure env x w) = (None, h x)"
    by (rule image_decode_failure) (rule f)
  have m: "\<And>v w. fst (decode_memo_value env v w) = (None, g v)"
    by (rule image_decode_memo_value) (rule d)
  have po: "\<And>field w. fst (if_present (decode_bridge_payload env) field w)
              = (None, map_option (\<lambda>q. bridge_view (g (api_view q))) field)"
    by (rule image_if_present) (rule p)
  have fo: "\<And>field w. fst (if_present (decode_failure env) field w)
              = (None, map_option h field)"
    by (rule image_if_present) (rule fl)
  have mm: "\<And>memo w. fst (for_each_value (decode_memo_value env) memo w)
              = (None, map (map_prod id g) memo)"
    by (rule image_for_each_value) (rule m)
  show ?thesis
  proof (cases j)
    case (ResolveActivity r x)
    then show ?thesis
      by (cases r) (simp_all add: fst_rebuild fl po)
  next
    case (ResolveChildWorkflowExecution r x)
    then show ?thesis
    proof (cases r)
      case (Completed opt)
      with ResolveChildWorkflowExecution show ?thesis
        by (cases opt) (simp_all add: fst_rebuild p)
    qed (simp_all add: fst_rebuild fl)
  next
    case (ResolveChildWorkflowExecutionStart st x)
    then show ?thesis by (cases st) (simp_all add: fst_rebuild fl)
  next
    case (StartWorkflow arguments cf memo x)
    then show ?thesis
      by (simp add: fst_and_then fst_rebuild ps fo mm)
  qed (simp_all add: fst_rebuild ps fo)
qed

lemma image_encode_command:
  assumes d: "\<And>ps s. fst (codec_encode env ps s) = Inr (map (\<lambda>p. fresh (g p)) ps)"
    and f: "\<And>f s. fst (failure_encode env f s) = (None, h f)"
  shows "fst (encode_command env c w)
           = (None, map_command (\<lambda>q. bridge_view (g (api_view q))) h id c)"
proof -
  have ps: "\<And>P w. fst (encode_bridge_payloads env P w)
                    = (None, map (\<lambda>q. bridge_view (g (api_view q))) P)"
    unfolding encode_bridge_payloads_def
    by (rule image_apply_to_bridge_payloads) (rule encode_cb_positional[OF d])
  have p: "\<And>p w. fst (encode_bridge_payload env p w) = (None, bridge_view (g (api_view p)))"
    unfolding encode_bridge_payload_def
    by (rule image_apply_to_bridge_payload) (rule encode_cb_positional[OF d])
  have fl: "\<And>x w. fst (encode_failure env x w) = (None, h x)"
    by (rule image_encode_failure) (rule f)
  have po: "\<And>field w. fst (if_present (encode_bridge_payload env) field w)
              = (None, map_option (\<lambda>q. bridge_view (g (api_view q))) field)"
    by (rule image_if_present) (rule p)
  have mm: "\<And>memo w. fst (for_each_value (encode_bridge_payload env) memo w)
              = (None, map (map_prod id (\<lambda>q. bridge_view (g (api_view q)))) memo)"
    by (rule image_for_each_value) (rule p)
  show ?thesis
  proof (cases c)
    case (RespondToQuery r x)
    then show ?thesis
    proof (cases r)
      case (QuerySucceeded opt)
      with RespondToQuery show ?thesis
        by (cases opt) (simp_all add: fst_rebuild p)
    qed (simp_all add: fst_rebuild fl)
  next
    case (ContinueAsNewWorkflowExecution arguments memo x)
    then show ?thesis
      by (simp add: fst_and_then fst_rebuild ps mm)
  next
    case (StartChildWorkflowExecution input memo x)
    then show ?thesis
      by (simp add: fst_and_then fst_rebuild ps mm)
  qed (simp_all add: fst_rebuild ps po fl)
qed

lemma image_decode_activation:
  assumes "\<And>ps s. fst (codec_decode env ps s) = Inr (map (\<lambda>p. fresh (g p)) ps)"
    and "\<And>f s. fst (failure_decode env f s) = (None, h f)"
  shows "fst (decode_activation env act w) = (None, image_of_activation g h act)"
proof -
  have "fst (for_each (decode_job env) (jobs act) w)
          = (None, map (map_job (\<lambda>q. bridge_view (g (api_view q))) g h id) (jobs act))"
    by (rule image_for_each) (rule image_decode_job[OF assms])
  then show ?thesis
    by (cases act) (simp add: decode_activation_def image_of_activation_def fst_rebuild)
qed

lemma image_encode_completion:
  assumes "\<And>ps s. fst (codec_encode env ps s) = Inr (map (\<lambda>p. fresh (g p)) ps)"
    and "\<And>f s. fst (failure_encode env f s) = (None, h f)"
  shows "fst (encode_completion env c w) = (None, image_of_completion g h c)"
proof (cases c)
  case (Completion st x)
  show ?thesis
  proof (cases st)
    case (CompletionFailed failure)
    with Completion show ?thesis
      by (simp add: encode_completion_def image_of_completion_def
            fst_rebuild image_encode_failure[OF assms(2)])
  next
    case (Successful commands)
    have "\<And>w. fst (for_each (encode_command env) commands w)
            = (None, map (map_command (\<lambda>q. bridge_view (g (api_view q))) h id) commands)"
      by (rule image_for_each) (rule image_encode_command[OF assms])
    with Completion Successful show ?thesis
      by (simp add: encode_completion_def image_of_completion_def fst_rebuild)
  next
    case OtherStatus
    with Completion show ?thesis
      by (simp add: encode_completion_def image_of_completion_def)
  qed
qed

text \<open>
  C4. When the codec returns, whenever it returns, as many payloads as it was given, then
  for every activation and every completion the message after the pass (whether the pass
  returned or raised on the way) has the shape of the message before it: the same jobs or
  commands in the same order and of the same variants, every payload sequence of the same
  length, every optional payload or failure present exactly where it was, every memo with
  the same keys, and all other fields with the same values. Only the contents of payloads
  and of failures can differ.

  The order inside a payload sequence is kept as well. For any codec, a sequence that went
  into a call holds afterwards the payloads of the result in the order of the result. And
  for a codec that answers position by position (payload \<open>i\<close> of its result is what a
  function \<open>g\<close> gives for payload \<open>i\<close> of its argument, as an object of its own) and a
  failure codec that gives \<open>h f\<close> for a failure \<open>f\<close>, the message after the pass is the
  message before it with every payload that the tables send to the codec replaced, where
  it stands, by the one payload \<open>g\<close> gives for it, every failure they send to the
  failure codec by what \<open>h\<close> gives for it, and nothing else changed.
\<close>

theorem transformation_preserves_shape:
  "((\<forall>ps s r s'. codec_decode env ps s = (Inr r, s') \<longrightarrow> length r = length ps) \<longrightarrow>
      shape_of_activation (snd (fst (decode_activation env act w))) = shape_of_activation act
      \<and> length (jobs (snd (fst (decode_activation env act w)))) = length (jobs act)
      \<and> activation_rest (snd (fst (decode_activation env act w))) = activation_rest act)
   \<and> ((\<forall>ps s r s'. codec_encode env ps s = (Inr r, s') \<longrightarrow> length r = length ps) \<longrightarrow>
      shape_of_completion (snd (fst (encode_completion env completion w)))
        = shape_of_completion completion
      \<and> completion_rest (snd (fst (encode_completion env completion w)))
        = completion_rest completion)
   \<and> (P \<noteq> [] \<and> codec_decode env (map api_view P) (cstate w) = (Inr r, s') \<longrightarrow>
      fst (decode_bridge_payloads env P w)
        = (None, map (\<lambda>x. bridge_view (returned_payload x)) r))
   \<and> (P \<noteq> [] \<and> codec_encode env (map api_view P) (cstate w) = (Inr r, s') \<longrightarrow>
      fst (encode_bridge_payloads env P w)
        = (None, map (\<lambda>x. bridge_view (returned_payload x)) r))
   \<and> ((\<forall>ps s. fst (codec_decode env ps s) = Inr (map (\<lambda>p. fresh (g p)) ps))
        \<and> (\<forall>f s. fst (failure_decode env f s) = (None, h f)) \<longrightarrow>
      fst (decode_activation env act w) = (None, image_of_activation g h act))
   \<and> ((\<forall>ps s. fst (codec_encode env ps s) = Inr (map (\<lambda>p. fresh (g p)) ps))
        \<and> (\<forall>f s. fst (failure_encode env f s) = (None, h f)) \<longrightarrow>
      fst (encode_completion env completion w) = (None, image_of_completion g h completion))"
proof (intro conjI impI)
  assume a: "\<forall>ps s r s'. codec_decode env ps s = (Inr r, s') \<longrightarrow> length r = length ps"
  show "shape_of_activation (snd (fst (decode_activation env act w))) = shape_of_activation act"
    by (rule shape_decode_activation) (use a in blast)
  show "length (jobs (snd (fst (decode_activation env act w)))) = length (jobs act)"
    by (simp add: decode_activation_def result_rebuild length_for_each)
  show "activation_rest (snd (fst (decode_activation env act w))) = activation_rest act"
    by (simp add: decode_activation_def result_rebuild)
next
  assume a: "\<forall>ps s r s'. codec_encode env ps s = (Inr r, s') \<longrightarrow> length r = length ps"
  show "shape_of_completion (snd (fst (encode_completion env completion w)))
          = shape_of_completion completion"
    by (rule shape_encode_completion) (use a in blast)
  show "completion_rest (snd (fst (encode_completion env completion w)))
          = completion_rest completion"
    by (cases "status completion") (simp_all add: encode_completion_def result_rebuild)
next
  assume "P \<noteq> [] \<and> codec_decode env (map api_view P) (cstate w) = (Inr r, s')"
  then show "fst (decode_bridge_payloads env P w)
               = (None, map (\<lambda>x. bridge_view (returned_payload x)) r)"
    by (simp add: decode_bridge_payloads_def apply_to_bridge_payloads_nonempty decode_cb_def)
next
  assume "P \<noteq> [] \<and> codec_encode env (map api_view P) (cstate w) = (Inr r, s')"
  then show "fst (encode_bridge_payloads env P w)
               = (None, map (\<lambda>x. bridge_view (returned_payload x)) r)"
    by (simp add: encode_bridge_payloads_def apply_to_bridge_payloads_nonempty encode_cb_def)
next
  assume "(\<forall>ps s. fst (codec_decode env ps s) = Inr (map (\<lambda>p. fresh (g p)) ps))
        \<and> (\<forall>f s. fst (failure_decode env f s) = (None, h f))"
  then show "fst (decode_activation env act w) = (None, image_of_activation g h act)"
    by (intro image_decode_activation) auto
next
  assume "(\<forall>ps s. fst (codec_encode env ps s) = Inr (map (\<lambda>p. fresh (g p)) ps))
        \<and> (\<forall>f s. fst (failure_encode env f s) = (None, h f))"
  then show "fst (encode_completion env completion w)
               = (None, image_of_completion g h completion)"
    by (intro image_encode_completion) auto
qed

theorem transformation_preserves_shape_witness:
  "(\<forall>ps s. \<exists>r s'. codec_decode marking_env ps s = (Inr r, s') \<and> length r = length ps)
   \<and> (\<forall>ps s. \<exists>r s'. codec_encode marking_env ps s = (Inr r, s') \<and> length r = length ps)
   \<and> shape_of_activation (snd (fst (decode_activation marking_env sample_activation start_world)))
       = Activation [SignalWorkflow [(), (), ()] ''signal'', OtherJob ''fire_timer'',
                     StartWorkflow [] (Some ()) [(''k'', ())] ''start''] ''run-1''
   \<and> shape_of_completion (snd (fst (encode_completion marking_env sample_completion start_world)))
       = Completion (Successful [ScheduleActivity [(), ()] ''activity'',
                                 RespondToQuery (QuerySucceeded None) ''query'',
                                 ContinueAsNewWorkflowExecution [()] [(''k'', ())] ''continue''])
           ''run-1''
   \<and> fst (decode_bridge_payloads marking_env [sample_payload 1, sample_payload 2] start_world)
       = (None, [bridge_view (mark 1 (api_view (sample_payload 1))),
                 bridge_view (mark 1 (api_view (sample_payload 2)))])
   \<and> fst (encode_bridge_payloads marking_env [sample_payload 1, sample_payload 2] start_world)
       = (None, [bridge_view (mark 2 (api_view (sample_payload 1))),
                 bridge_view (mark 2 (api_view (sample_payload 2)))])
   \<and> fst (decode_activation marking_env sample_activation start_world)
       = (None,
          Activation
            [SignalWorkflow [bridge_view (mark 1 (api_view (sample_payload 1))),
                             bridge_view (mark 1 (api_view (sample_payload 2))),
                             bridge_view (mark 1 (api_view (sample_payload 3)))] ''signal'',
             OtherJob ''fire_timer'',
             StartWorkflow [] (Some ''decoded failure'')
               [(''k'', mark 1 (from_bridge_payload (sample_payload 4)))] ''start'']
            ''run-1'')
   \<and> fst (encode_completion marking_env sample_completion start_world)
       = (None,
          Completion
            (Successful
               [ScheduleActivity [bridge_view (mark 2 (api_view (sample_payload 1))),
                                  bridge_view (mark 2 (api_view (sample_payload 2)))]
                  ''activity'',
                RespondToQuery (QuerySucceeded None) ''query'',
                ContinueAsNewWorkflowExecution
                  [bridge_view (mark 2 (api_view (sample_payload 3)))]
                  [(''k'', bridge_view (mark 2 (api_view (sample_payload 4))))] ''continue''])
            ''run-1'')"
proof -
  note t = transformation_preserves_shape
  have sa: "shape_of_activation sample_activation
       = Activation [SignalWorkflow [(), (), ()] ''signal'', OtherJob ''fire_timer'',
                     StartWorkflow [] (Some ()) [(''k'', ())] ''start''] ''run-1''"
    by (simp add: shape_of_activation_def sample_activation_def)
  have sc: "shape_of_completion sample_completion
       = Completion (Successful [ScheduleActivity [(), ()] ''activity'',
                                 RespondToQuery (QuerySucceeded None) ''query'',
                                 ContinueAsNewWorkflowExecution [()] [(''k'', ())] ''continue''])
           ''run-1''"
    by (simp add: shape_of_completion_def sample_completion_def)
  have m: "(\<forall>ps s. \<exists>r s'. codec_decode marking_env ps s = (Inr r, s') \<and> length r = length ps)
     \<and> (\<forall>ps s. \<exists>r s'. codec_encode marking_env ps s = (Inr r, s') \<and> length r = length ps)"
    by (simp add: marking_env_def)
  have a: "shape_of_activation
             (snd (fst (decode_activation marking_env sample_activation start_world)))
           = shape_of_activation sample_activation"
    using t [where env = marking_env and act = sample_activation and w = start_world,
             THEN conjunct1]
    by (auto simp add: marking_env_def)
  have b: "shape_of_completion
             (snd (fst (encode_completion marking_env sample_completion start_world)))
           = shape_of_completion sample_completion"
    using t [where env = marking_env and completion = sample_completion and w = start_world,
             THEN conjunct2, THEN conjunct1]
    by (auto simp add: marking_env_def)
  have c: "fst (decode_bridge_payloads marking_env [sample_payload 1, sample_payload 2]
                  start_world)
       = (None, [bridge_view (mark 1 (api_view (sample_payload 1))),
                 bridge_view (mark 1 (api_view (sample_payload 2)))])"
    using t [where env = marking_env and w = start_world
               and P = "[sample_payload 1, sample_payload 2]"
               and r = "map (\<lambda>p. fresh (mark 1 p))
                          (map api_view [sample_payload 1, sample_payload 2])"
               and s' = 1,
             THEN conjunct2, THEN conjunct2, THEN conjunct1]
    by (simp add: marking_env_def start_world_def fresh_def)
  have d: "fst (encode_bridge_payloads marking_env [sample_payload 1, sample_payload 2]
                  start_world)
       = (None, [bridge_view (mark 2 (api_view (sample_payload 1))),
                 bridge_view (mark 2 (api_view (sample_payload 2)))])"
    using t [where env = marking_env and w = start_world
               and P = "[sample_payload 1, sample_payload 2]"
               and r = "map (\<lambda>p. fresh (mark 2 p))
                          (map api_view [sample_payload 1, sample_payload 2])"
               and s' = 1,
             THEN conjunct2, THEN conjunct2, THEN conjunct2, THEN conjunct1]
    by (simp add: marking_env_def start_world_def fresh_def)
  have e: "fst (decode_activation marking_env sample_activation start_world)
       = (None, image_of_activation (mark 1) (\<lambda>f. ''decoded '' @ f) sample_activation)"
    using t [where env = marking_env and act = sample_activation and w = start_world
               and g = "mark 1" and h = "\<lambda>f. ''decoded '' @ f",
             THEN conjunct2, THEN conjunct2, THEN conjunct2, THEN conjunct2, THEN conjunct1]
    by (simp add: marking_env_def)
  have f: "fst (encode_completion marking_env sample_completion start_world)
       = (None, image_of_completion (mark 2) (\<lambda>f. ''encoded '' @ f) sample_completion)"
    using t [where env = marking_env and completion = sample_completion and w = start_world
               and g = "mark 2" and h = "\<lambda>f. ''encoded '' @ f",
             THEN conjunct2, THEN conjunct2, THEN conjunct2, THEN conjunct2, THEN conjunct2]
    by (simp add: marking_env_def)
  have ia: "image_of_activation (mark 1) (\<lambda>f. ''decoded '' @ f) sample_activation
       = Activation
            [SignalWorkflow [bridge_view (mark 1 (api_view (sample_payload 1))),
                             bridge_view (mark 1 (api_view (sample_payload 2))),
                             bridge_view (mark 1 (api_view (sample_payload 3)))] ''signal'',
             OtherJob ''fire_timer'',
             StartWorkflow [] (Some ''decoded failure'')
               [(''k'', mark 1 (from_bridge_payload (sample_payload 4)))] ''start'']
            ''run-1''"
    by (simp add: image_of_activation_def sample_activation_def)
  have ic: "image_of_completion (mark 2) (\<lambda>f. ''encoded '' @ f) sample_completion
       = Completion
            (Successful
               [ScheduleActivity [bridge_view (mark 2 (api_view (sample_payload 1))),
                                  bridge_view (mark 2 (api_view (sample_payload 2)))]
                  ''activity'',
                RespondToQuery (QuerySucceeded None) ''query'',
                ContinueAsNewWorkflowExecution
                  [bridge_view (mark 2 (api_view (sample_payload 3)))]
                  [(''k'', bridge_view (mark 2 (api_view (sample_payload 4))))] ''continue''])
            ''run-1''"
    by (simp add: image_of_completion_def sample_completion_def)
  show ?thesis
    unfolding a b c d sa sc e f ia ic using m
    by (simp add: shape_of_activation_def shape_of_completion_def)
qed

section \<open>Finalizing the worker\<close>

text \<open>
  C3 (as stated, refuted). With the core still draining, \<open>finalize_shutdown\<close> fails with
  the core's error, and the handle has lost its reference: a retry of \<open>shutdown\<close> raises
  AttributeError without reaching the core, and so does a retry of \<open>finalize_shutdown\<close>
  once the drain has completed. The handle is not usable for a retry.
\<close>

theorem finalize_before_drain_counterexample:
  "finalize_shutdown core_ops \<lparr>worker_ref = Some ()\<rparr> ShuttingDown
     = ((Some (Raised ''shutdown has not completed''), \<lparr>worker_ref = None\<rparr>), ShuttingDown)
   \<and> shutdown core_ops \<lparr>worker_ref = None\<rparr> ShuttingDown
     = ((Some AttributeError, \<lparr>worker_ref = None\<rparr>), ShuttingDown)
   \<and> finalize_shutdown core_ops \<lparr>worker_ref = None\<rparr> Drained
     = ((Some AttributeError, \<lparr>worker_ref = None\<rparr>), Drained)"
  by (simp add: finalize_shutdown_def shutdown_def core_ops_def)

text \<open>
  C3 (amended). \<open>finalize_shutdown\<close> discards the handle's reference before it calls the
  core, so the handle is invalid afterwards whether the core's call succeeded or failed.
  Called on a handle that holds a reference, it fails exactly when the core's
  \<open>finalize_shutdown\<close> fails (as it does before the drain has completed), with the core's
  error. After any call of \<open>finalize_shutdown\<close>, successful or not, every \<open>shutdown\<close> and
  every \<open>finalize_shutdown\<close> on the handle raises AttributeError and leaves the handle and
  the core as they are.
\<close>

theorem finalize_shutdown_discards_reference:
  "worker_ref (snd (fst (finalize_shutdown ops self n))) = None
   \<and> (\<forall>r. worker_ref self = Some r \<longrightarrow>
         fst (fst (finalize_shutdown ops self n)) = fst (ref_finalize_shutdown ops r n)
         \<and> snd (finalize_shutdown ops self n) = snd (ref_finalize_shutdown ops r n))
   \<and> (\<forall>n'. shutdown ops (snd (fst (finalize_shutdown ops self n))) n'
            = ((Some AttributeError, snd (fst (finalize_shutdown ops self n))), n')
          \<and> finalize_shutdown ops (snd (fst (finalize_shutdown ops self n))) n'
            = ((Some AttributeError, snd (fst (finalize_shutdown ops self n))), n'))"
  by (auto simp add: finalize_shutdown_def shutdown_def Let_def
        split: option.splits prod.splits)

theorem finalize_shutdown_discards_reference_witness:
  "worker_ref \<lparr>worker_ref = Some ()\<rparr> = Some ()
   \<and> ref_finalize_shutdown core_ops () Drained = (None, Finalized)
   \<and> fst (fst (finalize_shutdown core_ops \<lparr>worker_ref = Some ()\<rparr> Drained)) = None
   \<and> snd (finalize_shutdown core_ops \<lparr>worker_ref = Some ()\<rparr> Drained) = Finalized
   \<and> worker_ref (snd (fst (finalize_shutdown core_ops \<lparr>worker_ref = Some ()\<rparr> Drained))) = None
   \<and> fst (fst (finalize_shutdown core_ops
        (snd (fst (finalize_shutdown core_ops \<lparr>worker_ref = Some ()\<rparr> Drained))) Finalized))
       = Some AttributeError"
  using finalize_shutdown_discards_reference [of core_ops "\<lparr>worker_ref = Some ()\<rparr>" Drained]
  by (simp add: core_ops_def)

section \<open>The retry policy conversions\<close>

lemma timedelta_round_trip: "to_timedelta (from_timedelta td) = td"
proof -
  have m: "0 \<le> td mod 1000000" "td mod 1000000 < 1000000" by simp_all
  have d: "td = (td div 1000000) * 1000000 + td mod 1000000" by simp
  show ?thesis
  proof (cases "td div 1000000 < 0 \<and> td mod 1000000 > 0")
    case True
    have "(td mod 1000000 * 1000 - 1000000000) div 1000 = td mod 1000000 - 1000000" by simp
    moreover have "(td mod 1000000 * 1000 - 1000000000) mod 1000 = 0" by simp
    ultimately show ?thesis using True d
      by (simp add: to_timedelta_def from_timedelta_def normalize_duration_def
            round_toward_zero_def Let_def)
  next
    case False
    have "(td mod 1000000 * 1000) div 1000 = td mod 1000000" by simp
    moreover have "(td mod 1000000 * 1000) mod 1000 = 0" by simp
    ultimately show ?thesis using False d m
      by (auto simp add: to_timedelta_def from_timedelta_def normalize_duration_def
            round_toward_zero_def Let_def)
  qed
qed

text \<open>
  C8 (as stated, refuted). A policy whose maximum interval is a zero timedelta is written
  to a fresh wire message without error, and read back it is a different policy: the
  maximum interval has become absent.
\<close>

theorem retry_policy_round_trip_counterexample:
  "fst (retry_policy_to_proto sample_policy fresh_proto_policy) = None
   \<and> maximum_interval sample_policy = Some 0
   \<and> maximum_interval
       (retry_policy_from_proto (snd (retry_policy_to_proto sample_policy fresh_proto_policy)))
       = None
   \<and> retry_policy_from_proto (snd (retry_policy_to_proto sample_policy fresh_proto_policy))
       \<noteq> sample_policy"
  by (simp add: retry_policy_to_proto_def retry_policy_from_proto_def Let_def
       sample_policy_def fresh_proto_policy_def)

text \<open>
  C8 (amended). For a policy whose maximum attempts fit the wire's 32-bit signed field,
  written into a fresh wire message (no maximum interval, no error types): the conversion
  raises nothing, and reading the message back gives the same initial interval, backoff
  coefficient and maximum attempts; the same maximum interval, except that a zero maximum
  interval, like an absent one, is absent on the wire and comes back absent; and the same
  non-retryable error types, except that absent ones are empty on the wire and come back
  as the empty list.
\<close>

theorem retry_policy_round_trip:
  assumes "proto_maximum_interval v = None" and "proto_non_retryable_error_types v = []"
    and "- 2147483648 \<le> maximum_attempts p" and "maximum_attempts p \<le> 2147483647"
  shows "fst (retry_policy_to_proto p v) = None
     \<and> proto_maximum_interval (snd (retry_policy_to_proto p v)) =
         (case maximum_interval p of
            None \<Rightarrow> None
          | Some td \<Rightarrow> if td = 0 then None else Some (from_timedelta td))
     \<and> proto_non_retryable_error_types (snd (retry_policy_to_proto p v)) =
         (case non_retryable_error_types p of None \<Rightarrow> [] | Some types \<Rightarrow> types)
     \<and> retry_policy_from_proto (snd (retry_policy_to_proto p v)) =
         p\<lparr>maximum_interval :=
             (if maximum_interval p = Some 0 then None else maximum_interval p),
           non_retryable_error_types :=
             Some (case non_retryable_error_types p of None \<Rightarrow> [] | Some types \<Rightarrow> types)\<rparr>"
  using assms
  by (auto simp add: retry_policy_to_proto_def retry_policy_from_proto_def Let_def
       duration_or_default_def timedelta_round_trip split: option.splits)

theorem retry_policy_round_trip_witness:
  "proto_maximum_interval fresh_proto_policy = None
   \<and> proto_non_retryable_error_types fresh_proto_policy = []
   \<and> - 2147483648 \<le> maximum_attempts (sample_policy\<lparr>maximum_interval := Some 5000000\<rparr>)
   \<and> maximum_attempts (sample_policy\<lparr>maximum_interval := Some 5000000\<rparr>) \<le> 2147483647
   \<and> fst (retry_policy_to_proto (sample_policy\<lparr>maximum_interval := Some 5000000\<rparr>)
        fresh_proto_policy) = None
   \<and> retry_policy_from_proto
       (snd (retry_policy_to_proto (sample_policy\<lparr>maximum_interval := Some 5000000\<rparr>)
          fresh_proto_policy))
       = sample_policy\<lparr>maximum_interval := Some 5000000\<rparr>"
  using retry_policy_round_trip
          [of fresh_proto_policy "sample_policy\<lparr>maximum_interval := Some 5000000\<rparr>"]
  by (simp add: sample_policy_def fresh_proto_policy_def)

end
